theory Spec2Isabelle
  imports Complex_Main "HOL-Library.Stream"
begin

section \<open>The starfield of \<^verbatim>\<open>starfield/app.py\<close>\<close>

text \<open>
  The module keeps a flat list of vertex scalars (seven per vertex, four vertices per
  star), a flat list of indices, and a list of \<^verbatim>\<open>Star\<close> objects that hold the polar
  state of each star and write their screen position into the vertex list.

  Python's \<^verbatim>\<open>float\<close> is modelled twice. The classes are first written over
  \<^typ>\<open>real\<close> with the arithmetic the code writes down; the statements about the
  layout of the buffers, about which positions are written and about exact algebraic
  identities are made there. They are then written once more with every operation
  rounded as a double rounds it; every statement that depends on which branch a
  comparison takes or on a bound of a stored value is made there. The process-global
  \<^verbatim>\<open>random()\<close> is modelled by an explicit stream of draws that is threaded through
  every function that calls it; nothing is assumed about its distribution, only (where
  stated) that each draw lies in \<open>[0, 1)\<close>, as the Python documentation promises.
  The canvas, the shader, the texture and the \<^verbatim>\<open>Mesh\<close> draw call are outside the model.
\<close>

subsection \<open>Python primitives used by the module\<close>

type_synonym rng = "real stream"

definition random :: "rng \<Rightarrow> real \<times> rng" where
  \<comment> \<open>\<^verbatim>\<open>random()\<close>: hand out the next draw and advance the generator.\<close>
  "random g = (shd g, stl g)"

definition range_step :: "nat \<Rightarrow> nat \<Rightarrow> nat \<Rightarrow> nat list" where
  \<comment> \<open>\<^verbatim>\<open>range(start, stop, step)\<close> on non-negative arguments with \<open>step > 0\<close>. Python
     raises \<^verbatim>\<open>ValueError\<close> for \<open>step = 0\<close>; both call sites pass a positive constant
     (\<open>4\<close> and \<open>vsize = 7\<close>).\<close>
  "range_step start stop step =
     map (\<lambda>k. start + k * step) [0 ..< (stop - start + step - 1) div step]"

definition slice_assign :: "'a list \<Rightarrow> nat \<Rightarrow> nat \<Rightarrow> 'a list \<Rightarrow> 'a list" where
  \<comment> \<open>\<^verbatim>\<open>xs[i:j] = ys\<close> for non-negative \<open>i\<close>, \<open>j\<close>: both bounds are clamped to
     \<open>len(xs)\<close>, an empty slice sits at \<open>i\<close>, and the list may change length.\<close>
  "slice_assign xs i j ys = take i xs @ ys @ drop (max i j) xs"

subsection \<open>Module constants and the data model\<close>

definition NSTARS :: nat where
  "NSTARS = 1000"

definition vfmt :: "(string \<times> nat \<times> string) list" where
  "vfmt = [(''vCenter'', 2, ''float''),
           (''vScale'', 1, ''float''),
           (''vPosition'', 2, ''float''),
           (''vTexCoords0'', 2, ''float'')]"

definition vsize :: nat where
  \<comment> \<open>\<^verbatim>\<open>self.vsize = sum(attr[1] for attr in self.vfmt)\<close>; assigned once in
     \<^verbatim>\<open>__init__\<close> from the literal format and never reassigned.\<close>
  "vsize = sum_list (map (\<lambda>attr. fst (snd attr)) vfmt)"

record star =
  angle :: real
  distance :: real
  size_star :: real
  base_idx :: nat

record starfield =
  indices :: "nat list"
  vertices :: "real list"
  stars :: "star list"

subsection \<open>class \<^verbatim>\<open>Star\<close>\<close>

definition Star_reset :: "star \<Rightarrow> rng \<Rightarrow> star \<times> rng" where
  "Star_reset st g =
     (let (u1, g1) = random g;
          st1 = st\<lparr>angle := 2 * pi * u1\<rparr>;
          (u2, g2) = random g1;
          st2 = st1\<lparr>distance := 90 * u2 + 10\<rparr>;
          (u3, g3) = random g2;
          st3 = st2\<lparr>size_star := 0.05 * u3 + 0.05\<rparr>
      in (st3, g3))"

definition Star_init :: "nat \<Rightarrow> rng \<Rightarrow> star \<times> rng" where
  \<comment> \<open>\<^verbatim>\<open>Star(sf, i)\<close>: the class attributes give the defaults, \<^verbatim>\<open>__init__\<close> sets
     \<^verbatim>\<open>base_idx\<close> and calls \<^verbatim>\<open>reset()\<close>.\<close>
  "Star_init i g =
     Star_reset \<lparr>angle = 0, distance = 0, size_star = 0.1, base_idx = 4 * i * vsize\<rparr> g"

definition Star_iterate :: "star \<Rightarrow> nat list" where
  "Star_iterate st = range_step (base_idx st) (base_idx st + 4 * vsize) vsize"

definition Star_update :: "star \<Rightarrow> real \<Rightarrow> real \<Rightarrow> starfield \<Rightarrow> starfield" where
  \<comment> \<open>The star writes through its reference \<^verbatim>\<open>self.sf\<close>; the field is passed in and
     returned.\<close>
  "Star_update st x0 y0 sf =
     (let x = x0 + distance st * cos (angle st);
          y = y0 + distance st * sin (angle st)
      in fold (\<lambda>i sf. sf\<lparr>vertices := slice_assign (vertices sf) i (i + 3) [x, y, size_star st]\<rparr>)
              (Star_iterate st) sf)"

subsection \<open>class \<^verbatim>\<open>Starfield\<close>\<close>

definition quad :: "real list" where
  \<comment> \<open>The 28 literals appended per star in \<^verbatim>\<open>__init__\<close>.\<close>
  "quad = [0, 0, 1, -24, -24, 0, 1,
           0, 0, 1, 24, -24, 1, 1,
           0, 0, 1, 24, 24, 1, 0,
           0, 0, 1, -24, 24, 0, 0]"

definition make_stars :: "nat \<Rightarrow> rng \<Rightarrow> star list \<times> rng" where
  \<comment> \<open>\<^verbatim>\<open>[Star(self, i) for i in range(NSTARS)]\<close>: the stars are constructed in index
     order, each drawing from the generator the previous one left.\<close>
  "make_stars nstars g =
     fold (\<lambda>i (acc, g). let (st, g') = Star_init i g in (acc @ [st], g')) [0 ..< nstars] ([], g)"

definition Starfield_init :: "nat \<Rightarrow> rng \<Rightarrow> starfield \<times> rng" where
  \<comment> \<open>\<^verbatim>\<open>Starfield.__init__\<close> with the module constant \<^verbatim>\<open>NSTARS\<close> as a parameter.\<close>
  "Starfield_init nstars g =
     (let ixs = fold (\<lambda>i acc. acc @ [i, i + 1, i + 2, i + 2, i + 2, i + 3, i])
                     (range_step 0 (4 * nstars) 4) [];
          vs = fold (\<lambda>i acc. acc @ quad) [0 ..< nstars] [];
          (sts, g') = make_stars nstars g
      in (\<lparr>indices = ixs, vertices = vs, stars = sts\<rparr>, g'))"

definition Starfield_new :: "rng \<Rightarrow> starfield \<times> rng" where
  "Starfield_new g = Starfield_init NSTARS g"

definition grow :: "real \<Rightarrow> star \<Rightarrow> star" where
  \<comment> \<open>The two augmented assignments that open the loop body of \<^verbatim>\<open>update_glsl\<close>.\<close>
  "grow nap st =
     (let st1 = st\<lparr>distance := distance st * (2 * nap + 1)\<rparr>;
          st2 = st1\<lparr>size_star := size_star st1 + 0.25 * nap\<rparr>
      in st2)"

definition update_star ::
  "real \<Rightarrow> real \<Rightarrow> real \<Rightarrow> real \<Rightarrow> nat \<Rightarrow> starfield \<times> rng \<Rightarrow> starfield \<times> rng" where
  \<comment> \<open>One pass of the loop body of \<^verbatim>\<open>update_glsl\<close> for the star at position \<open>i\<close> of
     \<^verbatim>\<open>self.stars\<close>; the star object is mutated in place, so the new star is stored
     back at \<open>i\<close>.\<close>
  "update_star nap x0 y0 max_distance i s =
     (let (sf, g) = s;
          st = grow nap (stars sf ! i);
          sf1 = sf\<lparr>stars := (stars sf)[i := st]\<rparr>
      in if distance st > max_distance
         then (let (st', g') = Star_reset st g
               in (sf1\<lparr>stars := (stars sf1)[i := st']\<rparr>, g'))
         else (Star_update st x0 y0 sf1, g))"

definition update_glsl :: "real \<Rightarrow> real \<times> real \<Rightarrow> starfield \<Rightarrow> rng \<Rightarrow> starfield \<times> rng" where
  \<comment> \<open>\<^verbatim>\<open>update_glsl(nap)\<close>; \<open>center\<close> is the value of \<^verbatim>\<open>self.center\<close> read at the
     start of the call.\<close>
  "update_glsl nap center sf g =
     (let (x0, y0) = center;
          max_distance = 1.1 * max x0 y0
      in fold (update_star nap x0 y0 max_distance) [0 ..< length (stars sf)] (sf, g))"

fun run :: "(real \<times> real \<times> real) list \<Rightarrow> starfield \<times> rng \<Rightarrow> starfield \<times> rng" where
  \<comment> \<open>The clock calling \<^verbatim>\<open>update_glsl\<close> once per tick; a frame is \<open>(nap, center)\<close>.\<close>
  "run [] s = s"
| "run ((nap, center) # fs) s = run fs (update_glsl nap center (fst s) (snd s))"

subsection \<open>Vocabulary of the statements\<close>

definition wf_field :: "starfield \<Rightarrow> bool" where
  \<comment> \<open>The shape every constructed field has (\<open>wf_field_Starfield_init\<close>) and every update
     keeps (\<open>update_glsl_frame\<close>): 28 scalars per star, and star \<open>i\<close> based at
     \<open>4 * i * vsize\<close>.\<close>
  "wf_field sf \<longleftrightarrow>
     length (vertices sf) = 4 * length (stars sf) * vsize \<and>
     map base_idx (stars sf) = map (\<lambda>i. 4 * i * vsize) [0 ..< length (stars sf)]"

definition dyn_slot :: "nat \<Rightarrow> nat \<Rightarrow> bool" where
  \<comment> \<open>Position \<open>p\<close> of the vertex list is one of the first three scalars of one of the
     four vertices of star \<open>i\<close>.\<close>
  "dyn_slot i p \<longleftrightarrow>
     4 * i * vsize \<le> p \<and> p < 4 * (i + 1) * vsize \<and> (p - 4 * i * vsize) mod vsize < 3"

definition write3 :: "real list \<Rightarrow> nat \<Rightarrow> real \<Rightarrow> real \<Rightarrow> real \<Rightarrow> real list" where
  \<comment> \<open>What the slice assignment of \<^verbatim>\<open>Star.update\<close> amounts to when the three positions
     exist: three point updates.\<close>
  "write3 xs i a b c = xs[i := a, i + 1 := b, i + 2 := c]"


subsection \<open>The double arithmetic made explicit\<close>

text \<open>
  The same functions once more, with every floating-point operation of the source routed
  through an arithmetic \<open>ar\<close>: \<open>rnd ar\<close> rounds the exact result of each \<open>+\<close> and \<open>*\<close>
  and the value of each decimal literal, \<open>cosf ar\<close> and \<open>sinf ar\<close> stand for
  \<^verbatim>\<open>math.cos\<close> and \<^verbatim>\<open>math.sin\<close>, and \<open>mpi ar\<close> is the constant \<^verbatim>\<open>math.pi\<close>.
  Integer literals (\<open>2\<close>, \<open>1\<close>, \<open>90\<close>, \<open>10\<close>) convert exactly. Comparisons and
  \<^verbatim>\<open>max\<close> are exact on finite doubles. \<open>exact\<close> rounds nothing and gives back the
  functions above; \<open>binary64\<close> rounds to the nearest double, ties to even (finite
  doubles only: overflow to infinity and NaN are outside the model).
\<close>

record arith =
  rnd :: "real \<Rightarrow> real"
  cosf :: "real \<Rightarrow> real"
  sinf :: "real \<Rightarrow> real"
  mpi :: real

definition fmul :: "arith \<Rightarrow> real \<Rightarrow> real \<Rightarrow> real" where
  "fmul ar x y = rnd ar (x * y)"

definition fadd :: "arith \<Rightarrow> real \<Rightarrow> real \<Rightarrow> real" where
  "fadd ar x y = rnd ar (x + y)"

definition lit :: "arith \<Rightarrow> real \<Rightarrow> real" where
  \<comment> \<open>A decimal literal of the source denotes the double nearest to it.\<close>
  "lit ar q = rnd ar q"

definition exact :: arith where
  "exact = \<lparr>rnd = (\<lambda>x. x), cosf = cos, sinf = sin, mpi = pi\<rparr>"

definition rne :: "real \<Rightarrow> int" where
  \<comment> \<open>Round to the nearest integer, ties to the even one.\<close>
  "rne x = (let f = \<lfloor>x\<rfloor>; d = x - of_int f
            in if d < 1/2 then f else if 1/2 < d then f + 1 else if even f then f else f + 1)"

definition expo :: "real \<Rightarrow> int" where
  \<comment> \<open>The exponent of the binade of \<open>x\<close>, held at \<open>-1022\<close> in the subnormal range.\<close>
  "expo x = max \<lfloor>log 2 \<bar>x\<bar>\<rfloor> (- 1022)"

definition fl :: "real \<Rightarrow> real" where
  \<comment> \<open>IEEE 754 binary64 round-to-nearest-even of a real, 53 significant bits.\<close>
  "fl x = (if x = 0 then 0
           else of_int (rne (x / 2 powi (expo x - 52))) * 2 powi (expo x - 52))"

definition binary64 :: arith where
  \<comment> \<open>\<^verbatim>\<open>math.pi\<close> is the double \<open>0x400921FB54442D18\<close>. The C library's cosine and sine
     are taken as correctly rounded; no statement below uses them away from \<open>0\<close>.\<close>
  "binary64 = \<lparr>rnd = fl, cosf = (\<lambda>x. fl (cos x)), sinf = (\<lambda>x. fl (sin x)),
               mpi = 884279719003555 / 2 ^ 48\<rparr>"

definition Star_reset_fl :: "arith \<Rightarrow> star \<Rightarrow> rng \<Rightarrow> star \<times> rng" where
  "Star_reset_fl ar st g =
     (let (u1, g1) = random g;
          st1 = st\<lparr>angle := fmul ar (fmul ar 2 (mpi ar)) u1\<rparr>;
          (u2, g2) = random g1;
          st2 = st1\<lparr>distance := fadd ar (fmul ar 90 u2) 10\<rparr>;
          (u3, g3) = random g2;
          st3 = st2\<lparr>size_star := fadd ar (fmul ar (lit ar 0.05) u3) (lit ar 0.05)\<rparr>
      in (st3, g3))"

definition Star_init_fl :: "arith \<Rightarrow> nat \<Rightarrow> rng \<Rightarrow> star \<times> rng" where
  "Star_init_fl ar i g =
     Star_reset_fl ar
       \<lparr>angle = 0, distance = 0, size_star = lit ar 0.1, base_idx = 4 * i * vsize\<rparr> g"

definition Star_update_fl :: "arith \<Rightarrow> star \<Rightarrow> real \<Rightarrow> real \<Rightarrow> starfield \<Rightarrow> starfield" where
  "Star_update_fl ar st x0 y0 sf =
     (let x = fadd ar x0 (fmul ar (distance st) (cosf ar (angle st)));
          y = fadd ar y0 (fmul ar (distance st) (sinf ar (angle st)))
      in fold (\<lambda>i sf. sf\<lparr>vertices := slice_assign (vertices sf) i (i + 3) [x, y, size_star st]\<rparr>)
              (Star_iterate st) sf)"

definition make_stars_fl :: "arith \<Rightarrow> nat \<Rightarrow> rng \<Rightarrow> star list \<times> rng" where
  "make_stars_fl ar nstars g =
     fold (\<lambda>i (acc, g). let (st, g') = Star_init_fl ar i g in (acc @ [st], g'))
          [0 ..< nstars] ([], g)"

definition Starfield_init_fl :: "arith \<Rightarrow> nat \<Rightarrow> rng \<Rightarrow> starfield \<times> rng" where
  "Starfield_init_fl ar nstars g =
     (let ixs = fold (\<lambda>i acc. acc @ [i, i + 1, i + 2, i + 2, i + 2, i + 3, i])
                     (range_step 0 (4 * nstars) 4) [];
          vs = fold (\<lambda>i acc. acc @ quad) [0 ..< nstars] [];
          (sts, g') = make_stars_fl ar nstars g
      in (\<lparr>indices = ixs, vertices = vs, stars = sts\<rparr>, g'))"

definition grow_fl :: "arith \<Rightarrow> real \<Rightarrow> star \<Rightarrow> star" where
  "grow_fl ar nap st =
     (let st1 = st\<lparr>distance := fmul ar (distance st) (fadd ar (fmul ar 2 nap) 1)\<rparr>;
          st2 = st1\<lparr>size_star := fadd ar (size_star st1) (fmul ar (lit ar 0.25) nap)\<rparr>
      in st2)"

definition update_star_fl ::
  "arith \<Rightarrow> real \<Rightarrow> real \<Rightarrow> real \<Rightarrow> real \<Rightarrow> nat \<Rightarrow> starfield \<times> rng \<Rightarrow> starfield \<times> rng" where
  "update_star_fl ar nap x0 y0 max_distance i s =
     (let (sf, g) = s;
          st = grow_fl ar nap (stars sf ! i);
          sf1 = sf\<lparr>stars := (stars sf)[i := st]\<rparr>
      in if distance st > max_distance
         then (let (st', g') = Star_reset_fl ar st g
               in (sf1\<lparr>stars := (stars sf1)[i := st']\<rparr>, g'))
         else (Star_update_fl ar st x0 y0 sf1, g))"

definition update_glsl_fl ::
  "arith \<Rightarrow> real \<Rightarrow> real \<times> real \<Rightarrow> starfield \<Rightarrow> rng \<Rightarrow> starfield \<times> rng" where
  "update_glsl_fl ar nap center sf g =
     (let (x0, y0) = center;
          max_distance = fmul ar (lit ar 1.1) (max x0 y0)
      in fold (update_star_fl ar nap x0 y0 max_distance) [0 ..< length (stars sf)] (sf, g))"

fun run_fl ::
  "arith \<Rightarrow> (real \<times> real \<times> real) list \<Rightarrow> starfield \<times> rng \<Rightarrow> starfield \<times> rng" where
  "run_fl ar [] s = s"
| "run_fl ar ((nap, center) # fs) s = run_fl ar fs (update_glsl_fl ar nap center (fst s) (snd s))"

definition loop_upto_fl ::
  "arith \<Rightarrow> real \<Rightarrow> real \<times> real \<Rightarrow> nat \<Rightarrow> starfield \<Rightarrow> rng \<Rightarrow> starfield \<times> rng" where
  \<comment> \<open>The field and the generator at the moment the loop of \<^verbatim>\<open>update_glsl\<close> reaches
     the star at position \<open>k\<close>.\<close>
  "loop_upto_fl ar nap center k sf g =
     (let (x0, y0) = center;
          max_distance = fmul ar (lit ar 1.1) (max x0 y0)
      in fold (update_star_fl ar nap x0 y0 max_distance) [0 ..< k] (sf, g))"

fun resets_throughout_fl ::
  "arith \<Rightarrow> nat \<Rightarrow> (real \<times> real \<times> real) list \<Rightarrow> starfield \<times> rng \<Rightarrow> bool" where
  \<comment> \<open>Star \<open>i\<close> takes the \<^verbatim>\<open>reset()\<close> branch in every frame of the run.\<close>
  "resets_throughout_fl ar i [] s = True"
| "resets_throughout_fl ar i ((nap, center) # fs) s =
     (distance (grow_fl ar nap (stars (fst s) ! i)) >
        fmul ar (lit ar 1.1) (max (fst center) (snd center)) \<and>
      resets_throughout_fl ar i fs (update_glsl_fl ar nap center (fst s) (snd s)))"

section \<open>Auxiliary facts\<close>

lemma vsize_eq: "vsize = 7"
  by (simp add: vsize_def vfmt_def)

lemma upt_0_4: "[0 ..< 4] = [0, 1, 2, 3::nat]"
  by code_simp

lemma Star_iterate_eq:
  "Star_iterate st = [base_idx st, base_idx st + 7, base_idx st + 14, base_idx st + 21]"
  by (simp add: Star_iterate_def range_step_def vsize_eq upt_0_4)

lemma length_write3 [simp]: "length (write3 xs i a b c) = length xs"
  by (simp add: write3_def)

lemma nth_write3:
  "i + 3 \<le> length xs \<Longrightarrow>
   write3 xs i a b c ! p = (if p = i then a else if p = i + 1 then b else if p = i + 2 then c else xs ! p)"
  by (simp add: write3_def nth_list_update)

lemma slice_assign3:
  "j = i + 3 \<Longrightarrow> i + 3 \<le> length xs \<Longrightarrow> slice_assign xs i j [a, b, c] = write3 xs i a b c"
  apply (rule nth_equalityI)
   apply (simp add: slice_assign_def write3_def)
  apply (auto simp add: slice_assign_def write3_def nth_append nth_list_update nth_Cons' min_def)
  done

lemma Star_update_stars [simp]: "stars (Star_update st x0 y0 sf) = stars sf"
  by (simp add: Star_update_def Star_iterate_eq Let_def)

lemma Star_update_indices [simp]: "indices (Star_update st x0 y0 sf) = indices sf"
  by (simp add: Star_update_def Star_iterate_eq Let_def)

lemma Star_update_vertices:
  assumes "base_idx st + 28 \<le> length (vertices sf)"
  shows "vertices (Star_update st x0 y0 sf) =
    write3 (write3 (write3 (write3 (vertices sf)
      (base_idx st) (x0 + distance st * cos (angle st)) (y0 + distance st * sin (angle st)) (size_star st))
      (base_idx st + 7) (x0 + distance st * cos (angle st)) (y0 + distance st * sin (angle st)) (size_star st))
      (base_idx st + 14) (x0 + distance st * cos (angle st)) (y0 + distance st * sin (angle st)) (size_star st))
      (base_idx st + 21) (x0 + distance st * cos (angle st)) (y0 + distance st * sin (angle st)) (size_star st)"
  using assms by (simp add: Star_update_def Star_iterate_eq Let_def slice_assign3)

lemma Star_update_length:
  "base_idx st + 28 \<le> length (vertices sf) \<Longrightarrow>
   length (vertices (Star_update st x0 y0 sf)) = length (vertices sf)"
  by (simp add: Star_update_vertices)

lemma Star_update_nth:
  assumes "base_idx st + 28 \<le> length (vertices sf)"
  shows "vertices (Star_update st x0 y0 sf) ! p =
    (if base_idx st \<le> p \<and> p < base_idx st + 28 \<and> (p - base_idx st) mod 7 < 3
     then [x0 + distance st * cos (angle st), y0 + distance st * sin (angle st), size_star st]
            ! ((p - base_idx st) mod 7)
     else vertices sf ! p)"
proof -
  define b where "b = base_idx st"
  consider "p < b" | "b + 28 \<le> p" | q where "p = b + q" "q < 28"
    by (metis add_diff_inverse_nat linorder_not_less less_diff_conv2 not_less nat_add_left_cancel_less le_add_diff_inverse)
  then show ?thesis
  proof cases
    case 1
    then show ?thesis using assms by (simp add: Star_update_vertices nth_write3 b_def)
  next
    case 2
    then show ?thesis using assms by (simp add: Star_update_vertices nth_write3 b_def)
  next
    case 3
    from \<open>q < 28\<close> have "q \<in> set [0..<28]" by simp
    then have "q \<in> {0,1,2,3,4,5,6,7,8,9,10,11,12,13,14,15,16,17,18,19,20,21,22,23,24,25,26,27}"
      by (simp add: upt_rec numeral_eq_Suc)
    then show ?thesis using assms 3(1)
      by (auto simp add: Star_update_vertices nth_write3 b_def)
  qed
qed

lemma wf_base: "wf_field sf \<Longrightarrow> i < length (stars sf) \<Longrightarrow> base_idx (stars sf ! i) = 28 * i"
proof -
  assume wf: "wf_field sf" and i: "i < length (stars sf)"
  have "base_idx (stars sf ! i) = map base_idx (stars sf) ! i" using i by simp
  also have "\<dots> = map (\<lambda>i. 4 * i * vsize) [0 ..< length (stars sf)] ! i"
    using wf by (simp add: wf_field_def)
  also have "\<dots> = 28 * i" using i by (simp add: vsize_eq)
  finally show ?thesis .
qed

lemma wf_block:
  "wf_field sf \<Longrightarrow> i < length (stars sf) \<Longrightarrow> base_idx (stars sf ! i) + 28 \<le> length (vertices sf)"
  by (simp add: wf_base) (simp add: wf_field_def vsize_eq)

lemma Star_reset_eq:
  "Star_reset st g =
     (st\<lparr>angle := 2 * pi * shd g, distance := 90 * shd (stl g) + 10,
         size_star := 0.05 * shd (stl (stl g)) + 0.05\<rparr>, stl (stl (stl g)))"
  by (simp add: Star_reset_def random_def Let_def)

lemma base_idx_Star_reset [simp]: "base_idx (fst (Star_reset st g)) = base_idx st"
  by (simp add: Star_reset_eq)

lemma grow_eq:
  "grow nap st = st\<lparr>distance := distance st * (2 * nap + 1), size_star := size_star st + 0.25 * nap\<rparr>"
  by (simp add: grow_def Let_def)

lemma base_idx_grow [simp]: "base_idx (grow nap st) = base_idx st"
  by (simp add: grow_eq)

lemma update_star_reset:
  "distance (grow nap (stars sf ! i)) > m \<Longrightarrow>
   update_star nap x0 y0 m i (sf, g) =
     (sf\<lparr>stars := (stars sf)[i := fst (Star_reset (grow nap (stars sf ! i)) g)]\<rparr>,
      snd (Star_reset (grow nap (stars sf ! i)) g))"
  by (simp add: update_star_def Let_def split_beta)

lemma update_star_write:
  "\<not> distance (grow nap (stars sf ! i)) > m \<Longrightarrow>
   update_star nap x0 y0 m i (sf, g) =
     (Star_update (grow nap (stars sf ! i)) x0 y0 (sf\<lparr>stars := (stars sf)[i := grow nap (stars sf ! i)]\<rparr>), g)"
  by (simp add: update_star_def Let_def split_beta)

lemma wf_field_update_base:
  "wf_field sf \<Longrightarrow> i < length (stars sf) \<Longrightarrow> base_idx st = base_idx (stars sf ! i) \<Longrightarrow>
   wf_field (sf\<lparr>stars := (stars sf)[i := st]\<rparr>)"
  by (simp add: wf_field_def map_update) (metis list_update_id map_update)

lemma update_star_frame:
  assumes wf: "wf_field sf" and i: "i < length (stars sf)"
  shows "wf_field (fst (update_star nap x0 y0 m i (sf, g)))"
    and "length (stars (fst (update_star nap x0 y0 m i (sf, g)))) = length (stars sf)"
    and "indices (fst (update_star nap x0 y0 m i (sf, g))) = indices sf"
    and "j \<noteq> i \<Longrightarrow> stars (fst (update_star nap x0 y0 m i (sf, g))) ! j = stars sf ! j"
    and "base_idx (stars (fst (update_star nap x0 y0 m i (sf, g))) ! i) = base_idx (stars sf ! i)"
    and "\<not> dyn_slot i p \<Longrightarrow> vertices (fst (update_star nap x0 y0 m i (sf, g))) ! p = vertices sf ! p"
proof -
  let ?st = "grow nap (stars sf ! i)"
  let ?sf1 = "sf\<lparr>stars := (stars sf)[i := ?st]\<rparr>"
  have wf1: "wf_field ?sf1" using wf i by (simp add: wf_field_update_base)
  have blk: "base_idx ?st + 28 \<le> length (vertices ?sf1)" using wf_block [OF wf i] by simp
  show "wf_field (fst (update_star nap x0 y0 m i (sf, g)))"
  proof (cases "distance ?st > m")
    case True then show ?thesis using wf i by (simp add: update_star_reset wf_field_update_base)
  next
    case False
    then show ?thesis using wf1 blk
      by (simp add: update_star_write wf_field_def Star_update_length)
  qed
  show "length (stars (fst (update_star nap x0 y0 m i (sf, g)))) = length (stars sf)"
    by (cases "distance ?st > m") (simp_all add: update_star_reset update_star_write)
  show "indices (fst (update_star nap x0 y0 m i (sf, g))) = indices sf"
    by (cases "distance ?st > m") (simp_all add: update_star_reset update_star_write)
  show "j \<noteq> i \<Longrightarrow> stars (fst (update_star nap x0 y0 m i (sf, g))) ! j = stars sf ! j"
    by (cases "distance ?st > m") (simp_all add: update_star_reset update_star_write)
  show "base_idx (stars (fst (update_star nap x0 y0 m i (sf, g))) ! i) = base_idx (stars sf ! i)"
    using i by (cases "distance ?st > m") (simp_all add: update_star_reset update_star_write)
  show "\<not> dyn_slot i p \<Longrightarrow> vertices (fst (update_star nap x0 y0 m i (sf, g))) ! p = vertices sf ! p"
  proof (cases "distance ?st > m")
    case True then show ?thesis by (simp add: update_star_reset)
  next
    case False
    assume "\<not> dyn_slot i p"
    then show ?thesis using False blk wf_base [OF wf i]
      by (auto simp add: update_star_write Star_update_nth dyn_slot_def vsize_eq)
  qed
qed

lemma fold_update_star_frame:
  assumes "wf_field sf" and "\<forall>j\<in>set js. j < length (stars sf)"
  shows "wf_field (fst (fold (update_star nap x0 y0 m) js (sf, g))) \<and>
         length (stars (fst (fold (update_star nap x0 y0 m) js (sf, g)))) = length (stars sf) \<and>
         indices (fst (fold (update_star nap x0 y0 m) js (sf, g))) = indices sf \<and>
         (\<forall>i. i \<notin> set js \<longrightarrow> stars (fst (fold (update_star nap x0 y0 m) js (sf, g))) ! i = stars sf ! i) \<and>
         (\<forall>i. base_idx (stars (fst (fold (update_star nap x0 y0 m) js (sf, g))) ! i) = base_idx (stars sf ! i)) \<and>
         (\<forall>p. (\<forall>j\<in>set js. \<not> dyn_slot j p) \<longrightarrow>
              vertices (fst (fold (update_star nap x0 y0 m) js (sf, g))) ! p = vertices sf ! p)"
  using assms
proof (induction js arbitrary: sf g)
  case Nil
  then show ?case by simp
next
  case (Cons j js)
  obtain sf1 g1 where r: "update_star nap x0 y0 m j (sf, g) = (sf1, g1)"
    by (cases "update_star nap x0 y0 m j (sf, g)")
  have j: "j < length (stars sf)" using Cons.prems by simp
  note fr = update_star_frame [OF Cons.prems(1) j, where nap=nap and ?x0.0=x0 and ?y0.0=y0 and m=m and g=g, unfolded r fst_conv]
  have len: "length (stars sf1) = length (stars sf)" by (rule fr(2))
  have "\<forall>j\<in>set js. j < length (stars sf1)" using Cons.prems len by simp
  note ih = Cons.IH [OF fr(1) this, where g=g1]
  have base: "base_idx (stars sf1 ! i) = base_idx (stars sf ! i)" for i
    using fr(4) [of i] fr(5) by (cases "i = j") simp_all
  show ?case
    using ih len fr(3) fr(4) fr(6) base by (simp add: r)
qed

lemma dyn_slot_unique: "dyn_slot i p \<Longrightarrow> dyn_slot j p \<Longrightarrow> i = j"
  by (simp add: dyn_slot_def vsize_eq)



lemma update_glsl_frame:
  assumes wf: "wf_field sf"
  shows "wf_field (fst (update_glsl nap c sf g))"
    and "length (stars (fst (update_glsl nap c sf g))) = length (stars sf)"
    and "length (vertices (fst (update_glsl nap c sf g))) = length (vertices sf)"
    and "indices (fst (update_glsl nap c sf g)) = indices sf"
    and "base_idx (stars (fst (update_glsl nap c sf g)) ! i) = base_idx (stars sf ! i)"
    and "(\<forall>j<length (stars sf). \<not> dyn_slot j p) \<Longrightarrow>
         vertices (fst (update_glsl nap c sf g)) ! p = vertices sf ! p"
proof -
  obtain x0 y0 where c: "c = (x0, y0)" by (cases c)
  have js: "\<forall>j\<in>set [0 ..< length (stars sf)]. j < length (stars sf)" by simp
  note fr = fold_update_star_frame [OF wf js, where nap=nap and ?x0.0=x0 and ?y0.0=y0
      and m="1.1 * max x0 y0" and g=g]
  show w: "wf_field (fst (update_glsl nap c sf g))" using fr by (simp add: update_glsl_def c)
  show l: "length (stars (fst (update_glsl nap c sf g))) = length (stars sf)"
    using fr by (simp add: update_glsl_def c)
  show "length (vertices (fst (update_glsl nap c sf g))) = length (vertices sf)"
    using w l wf by (simp add: wf_field_def)
  show "indices (fst (update_glsl nap c sf g)) = indices sf"
    using fr by (simp add: update_glsl_def c)
  show "base_idx (stars (fst (update_glsl nap c sf g)) ! i) = base_idx (stars sf ! i)"
    using fr by (simp add: update_glsl_def c)
  show "(\<forall>j<length (stars sf). \<not> dyn_slot j p) \<Longrightarrow>
         vertices (fst (update_glsl nap c sf g)) ! p = vertices sf ! p"
    using fr by (simp add: update_glsl_def c)
qed


lemma fold_append_concat: "fold (\<lambda>i acc. acc @ f i) js acc0 = acc0 @ concat (map f js)"
  by (induction js arbitrary: acc0) simp_all

lemma range_step_4: "range_step 0 (4 * n) 4 = map (\<lambda>i. 4 * i) [0 ..< n]"
proof -
  have "(4 * n + 3) div 4 = n" by simp
  then show ?thesis by (simp add: range_step_def mult.commute)
qed

lemma make_stars_Suc:
  "make_stars (Suc n) g =
     (fst (make_stars n g) @ [fst (Star_init n (snd (make_stars n g)))],
      snd (Star_init n (snd (make_stars n g))))"
  by (simp add: make_stars_def split_beta Let_def)

lemma base_idx_Star_init [simp]: "base_idx (fst (Star_init i g)) = 4 * i * vsize"
  by (simp add: Star_init_def)

lemma make_stars_shape:
  "length (fst (make_stars n g)) = n \<and>
   map base_idx (fst (make_stars n g)) = map (\<lambda>i. 4 * i * vsize) [0 ..< n]"
proof (induction n)
  case 0
  show ?case by (simp add: make_stars_def)
next
  case (Suc n)
  then show ?case by (simp add: make_stars_Suc)
qed

lemma Starfield_init_eq:
  "Starfield_init n g =
     (\<lparr>indices = concat (map (\<lambda>i. [4 * i, 4 * i + 1, 4 * i + 2, 4 * i + 2, 4 * i + 2, 4 * i + 3, 4 * i]) [0 ..< n]),
       vertices = concat (replicate n quad),
       stars = fst (make_stars n g)\<rparr>, snd (make_stars n g))"
proof -
  have "concat (map (\<lambda>i. quad) [0 ..< n]) = concat (replicate n quad)"
    by (simp add: map_replicate_const)
  then show ?thesis
    by (simp add: Starfield_init_def fold_append_concat range_step_4 split_beta Let_def comp_def)
qed

lemma length_quad: "length quad = 28"
  by (simp add: quad_def)

lemma length_concat_replicate: "length (concat (replicate n xs)) = n * length xs"
  by (induction n) simp_all

lemma wf_field_Starfield_init: "wf_field (fst (Starfield_init n g))"
  using make_stars_shape [of n g]
  by (simp add: Starfield_init_eq wf_field_def length_concat_replicate length_quad vsize_eq)

lemma length_stars_Starfield_init: "length (stars (fst (Starfield_init n g))) = n"
  using make_stars_shape [of n g] by (simp add: Starfield_init_eq)

lemma nth_concat_replicate:
  "p < n * length xs \<Longrightarrow> concat (replicate n xs) ! p = xs ! (p mod length xs)"
proof (induction n arbitrary: p)
  case 0
  then show ?case by simp
next
  case (Suc n)
  show ?case
  proof (cases "p < length xs")
    case True
    then show ?thesis by (simp add: nth_append)
  next
    case False
    then have "p - length xs < n * length xs" using Suc.prems by simp
    from Suc.IH [OF this] False show ?thesis
      by (simp add: nth_append le_mod_geq)
  qed
qed

lemma run_frame:
  assumes "wf_field (fst s)"
  shows "wf_field (fst (run fs s)) \<and>
         length (stars (fst (run fs s))) = length (stars (fst s)) \<and>
         length (vertices (fst (run fs s))) = length (vertices (fst s)) \<and>
         indices (fst (run fs s)) = indices (fst s) \<and>
         (\<forall>i. base_idx (stars (fst (run fs s)) ! i) = base_idx (stars (fst s) ! i)) \<and>
         (\<forall>p. (\<forall>j<length (stars (fst s)). \<not> dyn_slot j p) \<longrightarrow>
              vertices (fst (run fs s)) ! p = vertices (fst s) ! p)"
  using assms
proof (induction fs arbitrary: s)
  case Nil
  then show ?case by simp
next
  case (Cons f fs)
  obtain nap c where f: "f = (nap, c)" by (cases f)
  let ?s1 = "update_glsl nap c (fst s) (snd s)"
  note u = update_glsl_frame [OF Cons.prems, where nap=nap and c=c and g="snd s"]
  note ih = Cons.IH [OF u(1)]
  show ?case using ih u(2-6) by (simp add: f)
qed

lemma static_not_dyn: "3 \<le> p mod vsize \<Longrightarrow> \<not> dyn_slot j p"
proof
  assume s: "3 \<le> p mod vsize" and d: "dyn_slot j p"
  from d have le: "28 * j \<le> p" and m: "(p - 28 * j) mod 7 < 3"
    by (simp_all add: dyn_slot_def vsize_eq)
  have "(p - 28 * j) mod 7 = p mod 7"
  proof -
    have "p = (p - 28 * j) + 7 * (4 * j)" using le by simp
    then have "p mod 7 = ((p - 28 * j) + 7 * (4 * j)) mod 7" by simp
    then show ?thesis by (simp only: mod_mult_self2)
  qed
  with s m show False by (simp add: vsize_eq)
qed

lemma slot_dyn:
  assumes wf: "wf_field sf" and i: "i < length (stars sf)" and k: "k < 4" and j: "j < 3"
  shows "dyn_slot i (base_idx (stars sf ! i) + k * vsize + j)"
    and "(base_idx (stars sf ! i) + k * vsize + j - base_idx (stars sf ! i)) mod vsize = j"
proof -
  have b: "base_idx (stars sf ! i) = 28 * i" by (rule wf_base [OF wf i])
  have "(k * 7 + j) mod 7 = j" using j by simp
  then show "(base_idx (stars sf ! i) + k * vsize + j - base_idx (stars sf ! i)) mod vsize = j"
    by (simp add: vsize_eq add.assoc)
  then show "dyn_slot i (base_idx (stars sf ! i) + k * vsize + j)"
    using k j by (simp add: dyn_slot_def b vsize_eq add.assoc)
qed

lemma Starfield_init_vertex:
  assumes i: "i < P" and q: "q < 28"
  shows "vertices (fst (Starfield_init P g)) ! (28 * i + q) = quad ! q"
proof -
  have "28 * i + q < P * 28" using i q by simp
  then have "concat (replicate P quad) ! (28 * i + q) = quad ! ((28 * i + q) mod 28)"
    using nth_concat_replicate [of "28 * i + q" P quad] by (simp add: length_quad)
  also have "(28 * i + q) mod 28 = q" using q by simp
  finally show ?thesis by (simp add: Starfield_init_eq)
qed

lemma less_4_cases: "k < (4::nat) \<Longrightarrow> k = 0 \<or> k = 1 \<or> k = 2 \<or> k = 3"
  by arith

lemma Starfield_init_vertex_row:
  assumes i: "i < P" and k: "k < 4"
  shows "take vsize (drop ((4 * i + k) * vsize) (vertices (fst (Starfield_init P g)))) =
           take 7 (drop (7 * k) quad)"
proof (rule nth_equalityI)
  have len: "length (vertices (fst (Starfield_init P g))) = 28 * P"
    by (simp add: Starfield_init_eq length_concat_replicate length_quad)
  have bound: "(4 * i + k) * 7 + 7 \<le> 28 * P" using i k by simp
  show "length (take vsize (drop ((4 * i + k) * vsize) (vertices (fst (Starfield_init P g))))) =
        length (take 7 (drop (7 * k) quad))"
    using bound k by (simp add: len vsize_eq length_quad)
  fix j
  assume "j < length (take vsize (drop ((4 * i + k) * vsize) (vertices (fst (Starfield_init P g)))))"
  then have j: "j < 7" by (simp add: vsize_eq)
  have q: "7 * k + j < 28" using k j by simp
  have e: "(4 * i + k) * 7 + j = 28 * i + (7 * k + j)" by simp
  have "vertices (fst (Starfield_init P g)) ! ((4 * i + k) * 7 + j) = quad ! (7 * k + j)"
    using Starfield_init_vertex [OF i q, of g] by (simp only: e)
  then show "take vsize (drop ((4 * i + k) * vsize) (vertices (fst (Starfield_init P g)))) ! j =
        take 7 (drop (7 * k) quad) ! j"
    using j bound k by (simp add: vsize_eq len length_quad)
qed

lemma make_stars_0: "make_stars 0 g = ([], g)"
  by (simp add: make_stars_def)

lemma Star_init_eq:
  "Star_init i g =
     (\<lparr>angle = 2 * pi * shd g, distance = 90 * shd (stl g) + 10,
       size_star = 0.05 * shd (stl (stl g)) + 0.05, base_idx = 28 * i\<rparr>, stl (stl (stl g)))"
  by (simp add: Star_init_def Star_reset_eq vsize_eq)

lemma Starfield_init_1:
  "Starfield_init (Suc 0) g =
     (\<lparr>indices = [0, 1, 2, 2, 2, 3, 0], vertices = quad, stars = [fst (Star_init 0 g)]\<rparr>,
      snd (Star_init 0 g))"
  by (simp add: Starfield_init_eq make_stars_Suc make_stars_0)



lemma Starfield_init_zero:
  "Starfield_init (Suc 0) (sconst 0) =
     (\<lparr>indices = [0, 1, 2, 2, 2, 3, 0], vertices = quad,
       stars = [\<lparr>angle = 0, distance = 10, size_star = 1/20, base_idx = 0\<rparr>]\<rparr>, sconst 0)"
  by (simp add: Starfield_init_1 Star_init_eq)

lemma sset_stl3: "sset (stl (stl (stl g))) \<subseteq> sset g"
  by (meson stl_sset subsetI)

subsection \<open>Facts about the rounded model\<close>

lemma Star_update_stars_fl [simp]: "stars (Star_update_fl ar st x0 y0 sf) = stars sf"
  by (simp add: Star_update_fl_def Star_iterate_eq Let_def)

lemma Star_update_indices_fl [simp]: "indices (Star_update_fl ar st x0 y0 sf) = indices sf"
  by (simp add: Star_update_fl_def Star_iterate_eq Let_def)

lemma Star_update_vertices_fl:
  assumes "base_idx st + 28 \<le> length (vertices sf)"
  shows "vertices (Star_update_fl ar st x0 y0 sf) =
    write3 (write3 (write3 (write3 (vertices sf)
      (base_idx st) (fadd ar x0 (fmul ar (distance st) (cosf ar (angle st)))) (fadd ar y0 (fmul ar (distance st) (sinf ar (angle st)))) (size_star st))
      (base_idx st + 7) (fadd ar x0 (fmul ar (distance st) (cosf ar (angle st)))) (fadd ar y0 (fmul ar (distance st) (sinf ar (angle st)))) (size_star st))
      (base_idx st + 14) (fadd ar x0 (fmul ar (distance st) (cosf ar (angle st)))) (fadd ar y0 (fmul ar (distance st) (sinf ar (angle st)))) (size_star st))
      (base_idx st + 21) (fadd ar x0 (fmul ar (distance st) (cosf ar (angle st)))) (fadd ar y0 (fmul ar (distance st) (sinf ar (angle st)))) (size_star st)"
  using assms by (simp add: Star_update_fl_def Star_iterate_eq Let_def slice_assign3)

lemma Star_update_length_fl:
  "base_idx st + 28 \<le> length (vertices sf) \<Longrightarrow>
   length (vertices (Star_update_fl ar st x0 y0 sf)) = length (vertices sf)"
  by (simp add: Star_update_vertices_fl)

lemma Star_update_nth_fl:
  assumes "base_idx st + 28 \<le> length (vertices sf)"
  shows "vertices (Star_update_fl ar st x0 y0 sf) ! p =
    (if base_idx st \<le> p \<and> p < base_idx st + 28 \<and> (p - base_idx st) mod 7 < 3
     then [fadd ar x0 (fmul ar (distance st) (cosf ar (angle st))), fadd ar y0 (fmul ar (distance st) (sinf ar (angle st))), size_star st]
            ! ((p - base_idx st) mod 7)
     else vertices sf ! p)"
proof -
  define b where "b = base_idx st"
  consider "p < b" | "b + 28 \<le> p" | q where "p = b + q" "q < 28"
    by (metis add_diff_inverse_nat linorder_not_less less_diff_conv2 not_less nat_add_left_cancel_less le_add_diff_inverse)
  then show ?thesis
  proof cases
    case 1
    then show ?thesis using assms by (simp add: Star_update_vertices_fl nth_write3 b_def)
  next
    case 2
    then show ?thesis using assms by (simp add: Star_update_vertices_fl nth_write3 b_def)
  next
    case 3
    from \<open>q < 28\<close> have "q \<in> set [0..<28]" by simp
    then have "q \<in> {0,1,2,3,4,5,6,7,8,9,10,11,12,13,14,15,16,17,18,19,20,21,22,23,24,25,26,27}"
      by (simp add: upt_rec numeral_eq_Suc)
    then show ?thesis using assms 3(1)
      by (auto simp add: Star_update_vertices_fl nth_write3 b_def)
  qed
qed

lemma Star_reset_eq_fl:
  "Star_reset_fl ar st g =
     (st\<lparr>angle := fmul ar (fmul ar 2 (mpi ar)) (shd g),
         distance := fadd ar (fmul ar 90 (shd (stl g))) 10,
         size_star := fadd ar (fmul ar (lit ar 0.05) (shd (stl (stl g)))) (lit ar 0.05)\<rparr>,
      stl (stl (stl g)))"
  by (simp add: Star_reset_fl_def random_def Let_def)

lemma base_idx_Star_reset_fl [simp]: "base_idx (fst (Star_reset_fl ar st g)) = base_idx st"
  by (simp add: Star_reset_eq_fl)

lemma grow_eq_fl:
  "grow_fl ar nap st =
     st\<lparr>distance := fmul ar (distance st) (fadd ar (fmul ar 2 nap) 1),
        size_star := fadd ar (size_star st) (fmul ar (lit ar 0.25) nap)\<rparr>"
  by (simp add: grow_fl_def Let_def)

lemma base_idx_grow_fl [simp]: "base_idx (grow_fl ar nap st) = base_idx st"
  by (simp add: grow_eq_fl)

lemma update_star_reset_fl:
  "distance (grow_fl ar nap (stars sf ! i)) > m \<Longrightarrow>
   update_star_fl ar nap x0 y0 m i (sf, g) =
     (sf\<lparr>stars := (stars sf)[i := fst (Star_reset_fl ar (grow_fl ar nap (stars sf ! i)) g)]\<rparr>,
      snd (Star_reset_fl ar (grow_fl ar nap (stars sf ! i)) g))"
  by (simp add: update_star_fl_def Let_def split_beta)

lemma update_star_write_fl:
  "\<not> distance (grow_fl ar nap (stars sf ! i)) > m \<Longrightarrow>
   update_star_fl ar nap x0 y0 m i (sf, g) =
     (Star_update_fl ar (grow_fl ar nap (stars sf ! i)) x0 y0 (sf\<lparr>stars := (stars sf)[i := grow_fl ar nap (stars sf ! i)]\<rparr>), g)"
  by (simp add: update_star_fl_def Let_def split_beta)

lemma update_star_frame_fl:
  assumes wf: "wf_field sf" and i: "i < length (stars sf)"
  shows "wf_field (fst (update_star_fl ar nap x0 y0 m i (sf, g)))"
    and "length (stars (fst (update_star_fl ar nap x0 y0 m i (sf, g)))) = length (stars sf)"
    and "indices (fst (update_star_fl ar nap x0 y0 m i (sf, g))) = indices sf"
    and "j \<noteq> i \<Longrightarrow> stars (fst (update_star_fl ar nap x0 y0 m i (sf, g))) ! j = stars sf ! j"
    and "base_idx (stars (fst (update_star_fl ar nap x0 y0 m i (sf, g))) ! i) = base_idx (stars sf ! i)"
    and "\<not> dyn_slot i p \<Longrightarrow> vertices (fst (update_star_fl ar nap x0 y0 m i (sf, g))) ! p = vertices sf ! p"
proof -
  let ?st = "grow_fl ar nap (stars sf ! i)"
  let ?sf1 = "sf\<lparr>stars := (stars sf)[i := ?st]\<rparr>"
  have wf1: "wf_field ?sf1" using wf i by (simp add: wf_field_update_base)
  have blk: "base_idx ?st + 28 \<le> length (vertices ?sf1)" using wf_block [OF wf i] by simp
  show "wf_field (fst (update_star_fl ar nap x0 y0 m i (sf, g)))"
  proof (cases "distance ?st > m")
    case True then show ?thesis using wf i by (simp add: update_star_reset_fl wf_field_update_base)
  next
    case False
    then show ?thesis using wf1 blk
      by (simp add: update_star_write_fl wf_field_def Star_update_length_fl)
  qed
  show "length (stars (fst (update_star_fl ar nap x0 y0 m i (sf, g)))) = length (stars sf)"
    by (cases "distance ?st > m") (simp_all add: update_star_reset_fl update_star_write_fl)
  show "indices (fst (update_star_fl ar nap x0 y0 m i (sf, g))) = indices sf"
    by (cases "distance ?st > m") (simp_all add: update_star_reset_fl update_star_write_fl)
  show "j \<noteq> i \<Longrightarrow> stars (fst (update_star_fl ar nap x0 y0 m i (sf, g))) ! j = stars sf ! j"
    by (cases "distance ?st > m") (simp_all add: update_star_reset_fl update_star_write_fl)
  show "base_idx (stars (fst (update_star_fl ar nap x0 y0 m i (sf, g))) ! i) = base_idx (stars sf ! i)"
    using i by (cases "distance ?st > m") (simp_all add: update_star_reset_fl update_star_write_fl)
  show "\<not> dyn_slot i p \<Longrightarrow> vertices (fst (update_star_fl ar nap x0 y0 m i (sf, g))) ! p = vertices sf ! p"
  proof (cases "distance ?st > m")
    case True then show ?thesis by (simp add: update_star_reset_fl)
  next
    case False
    assume "\<not> dyn_slot i p"
    then show ?thesis using False blk wf_base [OF wf i]
      by (auto simp add: update_star_write_fl Star_update_nth_fl dyn_slot_def vsize_eq)
  qed
qed

lemma fold_update_star_frame_fl:
  assumes "wf_field sf" and "\<forall>j\<in>set js. j < length (stars sf)"
  shows "wf_field (fst (fold (update_star_fl ar nap x0 y0 m) js (sf, g))) \<and>
         length (stars (fst (fold (update_star_fl ar nap x0 y0 m) js (sf, g)))) = length (stars sf) \<and>
         indices (fst (fold (update_star_fl ar nap x0 y0 m) js (sf, g))) = indices sf \<and>
         (\<forall>i. i \<notin> set js \<longrightarrow> stars (fst (fold (update_star_fl ar nap x0 y0 m) js (sf, g))) ! i = stars sf ! i) \<and>
         (\<forall>i. base_idx (stars (fst (fold (update_star_fl ar nap x0 y0 m) js (sf, g))) ! i) = base_idx (stars sf ! i)) \<and>
         (\<forall>p. (\<forall>j\<in>set js. \<not> dyn_slot j p) \<longrightarrow>
              vertices (fst (fold (update_star_fl ar nap x0 y0 m) js (sf, g))) ! p = vertices sf ! p)"
  using assms
proof (induction js arbitrary: sf g)
  case Nil
  then show ?case by simp
next
  case (Cons j js)
  obtain sf1 g1 where r: "update_star_fl ar nap x0 y0 m j (sf, g) = (sf1, g1)"
    by (cases "update_star_fl ar nap x0 y0 m j (sf, g)")
  have j: "j < length (stars sf)" using Cons.prems by simp
  note fr = update_star_frame_fl [OF Cons.prems(1) j, where ar=ar and nap=nap and ?x0.0=x0 and ?y0.0=y0 and m=m and g=g, unfolded r fst_conv]
  have len: "length (stars sf1) = length (stars sf)" by (rule fr(2))
  have "\<forall>j\<in>set js. j < length (stars sf1)" using Cons.prems len by simp
  note ih = Cons.IH [OF fr(1) this, where g=g1]
  have base: "base_idx (stars sf1 ! i) = base_idx (stars sf ! i)" for i
    using fr(4) [of i] fr(5) by (cases "i = j") simp_all
  show ?case
    using ih len fr(3) fr(4) fr(6) base by (simp add: r)
qed

lemma update_glsl_split_fl:
  assumes i: "i < length (stars sf)"
  shows "update_glsl_fl ar nap (x0, y0) sf g =
           fold (update_star_fl ar nap x0 y0 (fmul ar (lit ar 1.1) (max x0 y0))) [Suc i ..< length (stars sf)]
             (update_star_fl ar nap x0 y0 (fmul ar (lit ar 1.1) (max x0 y0)) i (loop_upto_fl ar nap (x0, y0) i sf g))"
proof -
  have "[0 ..< length (stars sf)] = [0 ..< i] @ i # [Suc i ..< length (stars sf)]"
    using i by (metis upt_conv_Cons upt_add_eq_append le_add_diff_inverse less_imp_le_nat zero_le add_0)
  then show ?thesis
    by (simp add: update_glsl_fl_def loop_upto_fl_def Let_def)
qed

lemma loop_upto_frame_fl:
  assumes wf: "wf_field sf" and k: "k \<le> length (stars sf)"
  shows "wf_field (fst (loop_upto_fl ar nap c k sf g))"
    and "length (stars (fst (loop_upto_fl ar nap c k sf g))) = length (stars sf)"
    and "k \<le> i \<Longrightarrow> stars (fst (loop_upto_fl ar nap c k sf g)) ! i = stars sf ! i"
    and "(\<forall>j<k. \<not> dyn_slot j p) \<Longrightarrow> vertices (fst (loop_upto_fl ar nap c k sf g)) ! p = vertices sf ! p"
proof -
  obtain x0 y0 where c: "c = (x0, y0)" by (cases c)
  have js: "\<forall>j\<in>set [0 ..< k]. j < length (stars sf)" using k by simp
  note fr = fold_update_star_frame_fl [OF wf js, where ar=ar and nap=nap and ?x0.0=x0 and ?y0.0=y0 and m="fmul ar (lit ar 1.1) (max x0 y0)" and g=g]
  show "wf_field (fst (loop_upto_fl ar nap c k sf g))" using fr by (simp add: loop_upto_fl_def c)
  show "length (stars (fst (loop_upto_fl ar nap c k sf g))) = length (stars sf)"
    using fr by (simp add: loop_upto_fl_def c)
  show "k \<le> i \<Longrightarrow> stars (fst (loop_upto_fl ar nap c k sf g)) ! i = stars sf ! i"
    using fr by (simp add: loop_upto_fl_def c)
  show "(\<forall>j<k. \<not> dyn_slot j p) \<Longrightarrow> vertices (fst (loop_upto_fl ar nap c k sf g)) ! p = vertices sf ! p"
    using fr by (simp add: loop_upto_fl_def c)
qed

lemma update_glsl_frame_fl:
  assumes wf: "wf_field sf"
  shows "wf_field (fst (update_glsl_fl ar nap c sf g))"
    and "length (stars (fst (update_glsl_fl ar nap c sf g))) = length (stars sf)"
    and "length (vertices (fst (update_glsl_fl ar nap c sf g))) = length (vertices sf)"
    and "indices (fst (update_glsl_fl ar nap c sf g)) = indices sf"
    and "base_idx (stars (fst (update_glsl_fl ar nap c sf g)) ! i) = base_idx (stars sf ! i)"
    and "(\<forall>j<length (stars sf). \<not> dyn_slot j p) \<Longrightarrow>
         vertices (fst (update_glsl_fl ar nap c sf g)) ! p = vertices sf ! p"
proof -
  obtain x0 y0 where c: "c = (x0, y0)" by (cases c)
  have js: "\<forall>j\<in>set [0 ..< length (stars sf)]. j < length (stars sf)" by simp
  note fr = fold_update_star_frame_fl [OF wf js, where ar=ar and nap=nap and ?x0.0=x0 and ?y0.0=y0
      and m="fmul ar (lit ar 1.1) (max x0 y0)" and g=g]
  show w: "wf_field (fst (update_glsl_fl ar nap c sf g))" using fr by (simp add: update_glsl_fl_def c)
  show l: "length (stars (fst (update_glsl_fl ar nap c sf g))) = length (stars sf)"
    using fr by (simp add: update_glsl_fl_def c)
  show "length (vertices (fst (update_glsl_fl ar nap c sf g))) = length (vertices sf)"
    using w l wf by (simp add: wf_field_def)
  show "indices (fst (update_glsl_fl ar nap c sf g)) = indices sf"
    using fr by (simp add: update_glsl_fl_def c)
  show "base_idx (stars (fst (update_glsl_fl ar nap c sf g)) ! i) = base_idx (stars sf ! i)"
    using fr by (simp add: update_glsl_fl_def c)
  show "(\<forall>j<length (stars sf). \<not> dyn_slot j p) \<Longrightarrow>
         vertices (fst (update_glsl_fl ar nap c sf g)) ! p = vertices sf ! p"
    using fr by (simp add: update_glsl_fl_def c)
qed

lemma update_glsl_star_fl:
  assumes wf: "wf_field sf" and i: "i < length (stars sf)"
  shows "stars (fst (update_glsl_fl ar nap (x0, y0) sf g)) ! i =
           (if distance (grow_fl ar nap (stars sf ! i)) > fmul ar (lit ar 1.1) (max x0 y0)
            then fst (Star_reset_fl ar (grow_fl ar nap (stars sf ! i)) (snd (loop_upto_fl ar nap (x0, y0) i sf g)))
            else grow_fl ar nap (stars sf ! i))"
    and "dyn_slot i p \<Longrightarrow>
         vertices (fst (update_glsl_fl ar nap (x0, y0) sf g)) ! p =
           (if distance (grow_fl ar nap (stars sf ! i)) > fmul ar (lit ar 1.1) (max x0 y0)
            then vertices sf ! p
            else [fadd ar x0 (fmul ar (distance (grow_fl ar nap (stars sf ! i))) (cosf ar (angle (stars sf ! i)))),
                  fadd ar y0 (fmul ar (distance (grow_fl ar nap (stars sf ! i))) (sinf ar (angle (stars sf ! i)))),
                  size_star (grow_fl ar nap (stars sf ! i))] ! ((p - base_idx (stars sf ! i)) mod vsize))"
proof -
  let ?m = "fmul ar (lit ar 1.1) (max x0 y0)"
  let ?st = "grow_fl ar nap (stars sf ! i)"
  obtain sfi gi where li: "loop_upto_fl ar nap (x0, y0) i sf g = (sfi, gi)"
    by (cases "loop_upto_fl ar nap (x0, y0) i sf g")
  have ile: "i \<le> length (stars sf)" using i by simp
  note pre = loop_upto_frame_fl [OF wf ile, where ar=ar and nap=nap and c="(x0, y0)" and g=g, unfolded li fst_conv]
  have wfi: "wf_field sfi" by (rule pre(1))
  have leni: "length (stars sfi) = length (stars sf)" by (rule pre(2))
  have ii: "i < length (stars sfi)" using i leni by simp
  have sti: "stars sfi ! i = stars sf ! i" using pre(3) [of i] by simp
  obtain sfb gb where b: "update_star_fl ar nap x0 y0 ?m i (sfi, gi) = (sfb, gb)"
    by (cases "update_star_fl ar nap x0 y0 ?m i (sfi, gi)")
  note fb = update_star_frame_fl [OF wfi ii, where ar=ar and nap=nap and ?x0.0=x0 and ?y0.0=y0 and m="?m" and g=gi,
      unfolded b fst_conv]
  have js: "\<forall>j\<in>set [Suc i ..< length (stars sf)]. j < length (stars sfb)"
    using fb(2) leni by simp
  note post = fold_update_star_frame_fl [OF fb(1) js, where ar=ar and nap=nap and ?x0.0=x0 and ?y0.0=y0
      and m="?m" and g=gb]
  have fin: "update_glsl_fl ar nap (x0, y0) sf g =
      fold (update_star_fl ar nap x0 y0 ?m) [Suc i ..< length (stars sf)] (sfb, gb)"
    using update_glsl_split_fl [OF i, where ar=ar and nap=nap and ?x0.0=x0 and ?y0.0=y0 and g=g] by (simp only: li b)
  have star_b: "stars sfb ! i = (if distance ?st > ?m then fst (Star_reset_fl ar ?st gi) else ?st)"
    using b ii sti
    by (cases "distance ?st > ?m") (auto simp add: update_star_reset_fl update_star_write_fl)
  show "stars (fst (update_glsl_fl ar nap (x0, y0) sf g)) ! i =
           (if distance ?st > ?m
            then fst (Star_reset_fl ar ?st (snd (loop_upto_fl ar nap (x0, y0) i sf g)))
            else ?st)"
    using post star_b by (simp add: fin li)
  assume p: "dyn_slot i p"
  have before: "vertices sfi ! p = vertices sf ! p"
  proof (rule pre(4), intro allI impI notI)
    fix j assume "j < i" and "dyn_slot j p"
    then show False using dyn_slot_unique [OF \<open>dyn_slot j p\<close> p] by simp
  qed
  have after: "vertices (fst (update_glsl_fl ar nap (x0, y0) sf g)) ! p = vertices sfb ! p"
  proof -
    have "\<forall>j\<in>set [Suc i ..< length (stars sf)]. \<not> dyn_slot j p"
    proof (intro ballI notI)
      fix j assume "j \<in> set [Suc i ..< length (stars sf)]" and "dyn_slot j p"
      then show False using dyn_slot_unique [OF \<open>dyn_slot j p\<close> p] by simp
    qed
    then show ?thesis using post by (simp add: fin)
  qed
  have blk: "base_idx ?st + 28 \<le> length (vertices (sfi\<lparr>stars := (stars sfi)[i := ?st]\<rparr>))"
    using wf_block [OF wfi ii] sti by simp
  have bi: "base_idx (stars sf ! i) = 28 * i" by (rule wf_base [OF wf i])
  have "vertices sfb ! p =
           (if distance ?st > ?m
            then vertices sfi ! p
            else [fadd ar x0 (fmul ar (distance ?st) (cosf ar (angle (stars sf ! i)))),
                  fadd ar y0 (fmul ar (distance ?st) (sinf ar (angle (stars sf ! i)))),
                  size_star ?st] ! ((p - base_idx (stars sf ! i)) mod vsize))"
  proof (cases "distance ?st > ?m")
    case True
    then show ?thesis using b sti by (auto simp add: update_star_reset_fl)
  next
    case False
    have "sfb = Star_update_fl ar ?st x0 y0 (sfi\<lparr>stars := (stars sfi)[i := ?st]\<rparr>)"
      using b False sti by (simp add: update_star_write_fl)
    then show ?thesis using False p bi blk
      by (simp add: Star_update_nth_fl dyn_slot_def vsize_eq grow_eq_fl)
  qed
  then show "vertices (fst (update_glsl_fl ar nap (x0, y0) sf g)) ! p =
           (if distance ?st > ?m
            then vertices sf ! p
            else [fadd ar x0 (fmul ar (distance ?st) (cosf ar (angle (stars sf ! i)))),
                  fadd ar y0 (fmul ar (distance ?st) (sinf ar (angle (stars sf ! i)))),
                  size_star ?st] ! ((p - base_idx (stars sf ! i)) mod vsize))"
    using after before by simp
qed

lemma make_stars_Suc_fl:
  "make_stars_fl ar (Suc n) g =
     (fst (make_stars_fl ar n g) @ [fst (Star_init_fl ar n (snd (make_stars_fl ar n g)))],
      snd (Star_init_fl ar n (snd (make_stars_fl ar n g))))"
  by (simp add: make_stars_fl_def split_beta Let_def)

lemma base_idx_Star_init_fl [simp]: "base_idx (fst (Star_init_fl ar i g)) = 4 * i * vsize"
  by (simp add: Star_init_fl_def)

lemma make_stars_shape_fl:
  "length (fst (make_stars_fl ar n g)) = n \<and>
   map base_idx (fst (make_stars_fl ar n g)) = map (\<lambda>i. 4 * i * vsize) [0 ..< n]"
proof (induction n)
  case 0
  show ?case by (simp add: make_stars_fl_def)
next
  case (Suc n)
  then show ?case by (simp add: make_stars_Suc_fl)
qed

lemma Starfield_init_eq_fl:
  "Starfield_init_fl ar n g =
     (\<lparr>indices = concat (map (\<lambda>i. [4 * i, 4 * i + 1, 4 * i + 2, 4 * i + 2, 4 * i + 2, 4 * i + 3, 4 * i]) [0 ..< n]),
       vertices = concat (replicate n quad),
       stars = fst (make_stars_fl ar n g)\<rparr>, snd (make_stars_fl ar n g))"
proof -
  have "concat (map (\<lambda>i. quad) [0 ..< n]) = concat (replicate n quad)"
    by (simp add: map_replicate_const)
  then show ?thesis
    by (simp add: Starfield_init_fl_def fold_append_concat range_step_4 split_beta Let_def comp_def)
qed

lemma wf_field_Starfield_init_fl: "wf_field (fst (Starfield_init_fl ar n g))"
  using make_stars_shape_fl [of ar n g]
  by (simp add: Starfield_init_eq_fl wf_field_def length_concat_replicate length_quad vsize_eq)

lemma length_stars_Starfield_init_fl: "length (stars (fst (Starfield_init_fl ar n g))) = n"
  using make_stars_shape_fl [of ar n g] by (simp add: Starfield_init_eq_fl)

lemma run_frame_fl:
  assumes "wf_field (fst s)"
  shows "wf_field (fst (run_fl ar fs s)) \<and>
         length (stars (fst (run_fl ar fs s))) = length (stars (fst s)) \<and>
         length (vertices (fst (run_fl ar fs s))) = length (vertices (fst s)) \<and>
         indices (fst (run_fl ar fs s)) = indices (fst s) \<and>
         (\<forall>i. base_idx (stars (fst (run_fl ar fs s)) ! i) = base_idx (stars (fst s) ! i)) \<and>
         (\<forall>p. (\<forall>j<length (stars (fst s)). \<not> dyn_slot j p) \<longrightarrow>
              vertices (fst (run_fl ar fs s)) ! p = vertices (fst s) ! p)"
  using assms
proof (induction fs arbitrary: s)
  case Nil
  then show ?case by simp
next
  case (Cons f fs)
  obtain nap c where f: "f = (nap, c)" by (cases f)
  let ?s1 = "update_glsl_fl ar nap c (fst s) (snd s)"
  note u = update_glsl_frame_fl [OF Cons.prems, where ar=ar and nap=nap and c=c and g="snd s"]
  note ih = Cons.IH [OF u(1)]
  show ?case using ih u(2-6) by (simp add: f)
qed

lemma make_stars_0_fl: "make_stars_fl ar 0 g = ([], g)"
  by (simp add: make_stars_fl_def)

lemma Star_init_eq_fl:
  "Star_init_fl ar i g =
     (\<lparr>angle = fmul ar (fmul ar 2 (mpi ar)) (shd g),
       distance = fadd ar (fmul ar 90 (shd (stl g))) 10,
       size_star = fadd ar (fmul ar (lit ar 0.05) (shd (stl (stl g)))) (lit ar 0.05),
       base_idx = 28 * i\<rparr>, stl (stl (stl g)))"
  by (simp add: Star_init_fl_def Star_reset_eq_fl vsize_eq)

lemma update_star_sset_fl: "sset (snd (update_star_fl ar nap x0 y0 m i (sf, g))) \<subseteq> sset g"
  by (cases "distance (grow_fl ar nap (stars sf ! i)) > m")
     (simp_all add: update_star_reset_fl update_star_write_fl Star_reset_eq_fl sset_stl3)

lemma fold_update_star_sset_fl: "sset (snd (fold (update_star_fl ar nap x0 y0 m) js (sf, g))) \<subseteq> sset g"
proof (induction js arbitrary: sf g)
  case Nil
  show ?case by simp
next
  case (Cons j js)
  obtain sf1 g1 where r: "update_star_fl ar nap x0 y0 m j (sf, g) = (sf1, g1)"
    by (cases "update_star_fl ar nap x0 y0 m j (sf, g)")
  have "sset g1 \<subseteq> sset g" using update_star_sset_fl [where ar=ar and nap=nap and ?x0.0=x0 and ?y0.0=y0 and m=m and i=j and sf=sf and g=g] by (simp add: r)
  moreover have "sset (snd (fold (update_star_fl ar nap x0 y0 m) js (sf1, g1))) \<subseteq> sset g1"
    by (rule Cons.IH)
  ultimately show ?case by (simp add: r)
qed

lemma loop_upto_sset_fl: "sset (snd (loop_upto_fl ar nap c k sf g)) \<subseteq> sset g"
  by (cases c) (simp add: loop_upto_fl_def fold_update_star_sset_fl)

lemma update_glsl_sset_fl: "sset (snd (update_glsl_fl ar nap c sf g)) \<subseteq> sset g"
  by (cases c) (simp add: update_glsl_fl_def fold_update_star_sset_fl)

lemma run_sset_fl: "sset (snd (run_fl ar fs s)) \<subseteq> sset (snd s)"
proof (induction fs arbitrary: s)
  case Nil
  show ?case by simp
next
  case (Cons f fs)
  obtain nap c where f: "f = (nap, c)" by (cases f)
  have "sset (snd (run_fl ar fs (update_glsl_fl ar nap c (fst s) (snd s)))) \<subseteq>
        sset (snd (update_glsl_fl ar nap c (fst s) (snd s)))"
    by (rule Cons.IH)
  then show ?case using update_glsl_sset_fl [where ar=ar and nap=nap and c=c and sf="fst s" and g="snd s"] by (simp add: f)
qed

lemma update_glsl_keep_frame_fl:
  assumes wf: "wf_field sf" and i: "i < length (stars sf)"
    and keep: "\<not> distance (grow_fl ar nap (stars sf ! i)) > fmul ar (lit ar 1.1) (max x0 y0)"
    and k: "k < 4" and j: "j < 3"
  shows "vertices (fst (update_glsl_fl ar nap (x0, y0) sf g)) ! (base_idx (stars sf ! i) + k * vsize + j) =
      [fadd ar x0 (fmul ar (distance (grow_fl ar nap (stars sf ! i))) (cosf ar (angle (stars sf ! i)))),
       fadd ar y0 (fmul ar (distance (grow_fl ar nap (stars sf ! i))) (sinf ar (angle (stars sf ! i)))),
       size_star (grow_fl ar nap (stars sf ! i))] ! j"
  using update_glsl_star_fl(2) [OF wf i slot_dyn(1) [OF wf i k j], where ar=ar and nap=nap and ?x0.0=x0 and ?y0.0=y0 and g=g] keep
  by (simp only: if_False slot_dyn(2) [OF wf i k j])

lemma rne_near: "\<bar>x - of_int n\<bar> < 1/2 \<Longrightarrow> rne x = n"
proof -
  assume a: "\<bar>x - of_int n\<bar> < 1/2"
  show ?thesis
  proof (cases "of_int n \<le> x")
    case True
    then have "\<lfloor>x\<rfloor> = n" using a by (intro floor_unique) auto
    then show ?thesis using a True by (simp add: rne_def Let_def)
  next
    case False
    then have f: "\<lfloor>x\<rfloor> = n - 1" using a by (intro floor_unique) auto
    then show ?thesis using a False by (auto simp add: rne_def Let_def)
  qed
qed

lemma rne_tie: "x = of_int n + 1/2 \<Longrightarrow> rne x = (if even n then n else n + 1)"
proof -
  assume a: "x = of_int n + 1/2"
  then have "\<lfloor>x\<rfloor> = n" by (intro floor_unique) auto
  then show ?thesis using a by (simp add: rne_def Let_def)
qed

lemma rne_of_int [simp]: "rne (of_int n) = n"
  by (rule rne_near) simp

lemma rne_numeral [simp]: "rne (numeral n) = numeral n"
  using rne_of_int [of "numeral n"] by simp

lemma rne_cases: "rne x = \<lfloor>x\<rfloor> \<or> rne x = \<lfloor>x\<rfloor> + 1"
  by (simp add: rne_def Let_def)

lemma rne_mono: "x \<le> y \<Longrightarrow> rne x \<le> rne y"
proof -
  assume xy: "x \<le> y"
  then have f: "\<lfloor>x\<rfloor> \<le> \<lfloor>y\<rfloor>" by (rule floor_mono)
  show ?thesis
  proof (cases "\<lfloor>x\<rfloor> = \<lfloor>y\<rfloor>")
    case True
    then have "x - of_int \<lfloor>x\<rfloor> \<le> y - of_int \<lfloor>y\<rfloor>" using xy by simp
    then show ?thesis using True by (auto simp add: rne_def Let_def)
  next
    case False
    then have "\<lfloor>x\<rfloor> + 1 \<le> \<lfloor>y\<rfloor>" using f by simp
    moreover have "rne x \<le> \<lfloor>x\<rfloor> + 1" using rne_cases [of x] by auto
    moreover have "\<lfloor>y\<rfloor> \<le> rne y" using rne_cases [of y] by auto
    ultimately show ?thesis by linarith
  qed
qed

lemma rne_minus: "rne (- x) = - rne x"
proof (cases "x = of_int \<lfloor>x\<rfloor>")
  case True
  then obtain n where "x = of_int n" by blast
  then have "- x = of_int (- n)" by simp
  then show ?thesis using \<open>x = of_int n\<close> by (simp only: rne_of_int)
next
  case False
  then have fl: "of_int \<lfloor>x\<rfloor> < x" "x < of_int \<lfloor>x\<rfloor> + 1"
    using of_int_floor_le [of x] by linarith+
  have fm: "\<lfloor>- x\<rfloor> = - \<lfloor>x\<rfloor> - 1"
  proof (rule floor_unique)
    have e: "of_int (- \<lfloor>x\<rfloor> - 1) = - of_int \<lfloor>x\<rfloor> - (1::real)" by simp
    show "of_int (- \<lfloor>x\<rfloor> - 1) \<le> - x" using fl(2) unfolding e by linarith
    show "- x < of_int (- \<lfloor>x\<rfloor> - 1) + 1" using fl(1) unfolding e by linarith
  qed
  show ?thesis using fl by (auto simp add: rne_def Let_def fm)
qed

lemma expo_eq:
  assumes "2 powi e \<le> \<bar>x\<bar>" and "\<bar>x\<bar> < 2 powi (e + 1)" and "- 1022 \<le> e"
  shows "expo x = e"
proof -
  have pos: "0 < \<bar>x\<bar>" using assms(1) by (smt (verit) zero_less_power_int)
  have p1: "(2::real) powr of_int e = 2 powi e" by (simp add: powr_real_of_int')
  have "(2::real) powr of_int (e + 1) = 2 powi (e + 1)" by (rule powr_real_of_int') simp_all
  then have p2: "(2::real) powr (of_int e + 1) = 2 powi (e + 1)" by simp
  have "(2::real) powr of_int e \<le> \<bar>x\<bar> \<and> \<bar>x\<bar> < 2 powr (of_int e + 1)"
    using assms by (simp only: p1 p2)
  then have "\<lfloor>log 2 \<bar>x\<bar>\<rfloor> = e" using pos by (simp add: floor_log_eq_powr_iff)
  then show ?thesis using assms(3) by (simp add: expo_def)
qed

lemma fl_eval:
  assumes "2 powi e \<le> \<bar>x\<bar>" and "\<bar>x\<bar> < 2 powi (e + 1)" and "- 1022 \<le> e"
  shows "fl x = of_int (rne (x / 2 powi (e - 52))) * 2 powi (e - 52)"
proof -
  have "x \<noteq> 0" using assms(1) by (smt (verit) zero_less_power_int)
  then show ?thesis by (simp add: fl_def expo_eq [OF assms])
qed

lemma fl_0 [simp]: "fl 0 = 0"
  by (simp add: fl_def)

lemma fl_1: "fl 1 = 1"
  using fl_eval [of 0 1] by simp

lemma expo_upper: "x \<noteq> 0 \<Longrightarrow> \<bar>x\<bar> < 2 powi (expo x + 1)"
proof -
  assume "x \<noteq> 0"
  then have pos: "0 < \<bar>x\<bar>" by simp
  define k where "k = \<lfloor>log 2 \<bar>x\<bar>\<rfloor>"
  have "\<bar>x\<bar> < 2 powr (of_int k + 1)"
    using pos floor_log_eq_powr_iff [of "\<bar>x\<bar>" 2 k] by (simp add: k_def)
  also have "(2::real) powr (of_int k + 1) = 2 powr of_int (k + 1)" by simp
  also have "\<dots> = 2 powi (k + 1)" by (rule powr_real_of_int') simp_all
  also have "\<dots> \<le> 2 powi (expo x + 1)"
    by (rule power_int_increasing) (simp_all add: expo_def k_def)
  finally show ?thesis .
qed

lemma expo_lower: "x \<noteq> 0 \<Longrightarrow> - 1022 < expo x \<Longrightarrow> 2 powi expo x \<le> \<bar>x\<bar>"
proof -
  assume "x \<noteq> 0" and big: "- 1022 < expo x"
  then have pos: "0 < \<bar>x\<bar>" by simp
  define k where "k = \<lfloor>log 2 \<bar>x\<bar>\<rfloor>"
  have ek: "expo x = k" using big by (simp add: expo_def k_def max_def split: if_splits)
  have "(2::real) powr of_int k \<le> \<bar>x\<bar>"
    using pos floor_log_eq_powr_iff [of "\<bar>x\<bar>" 2 k] by (simp add: k_def)
  moreover have "(2::real) powr of_int k = 2 powi k" by (rule powr_real_of_int') simp_all
  ultimately show ?thesis by (simp add: ek)
qed

lemma expo_mono: "0 < x \<Longrightarrow> x \<le> y \<Longrightarrow> expo x \<le> expo y"
proof -
  assume "0 < x" and "x \<le> y"
  then have "log 2 \<bar>x\<bar> \<le> log 2 \<bar>y\<bar>" by simp
  then have "\<lfloor>log 2 \<bar>x\<bar>\<rfloor> \<le> \<lfloor>log 2 \<bar>y\<bar>\<rfloor>" by (rule floor_mono)
  then show ?thesis by (simp add: expo_def)
qed

lemma expo_minus [simp]: "expo (- x) = expo x"
  by (simp add: expo_def)

lemma fl_minus: "fl (- x) = - fl x"
  by (simp add: fl_def rne_minus)

lemma fl_nonneg: "0 \<le> x \<Longrightarrow> 0 \<le> fl x"
proof (cases "x = 0")
  case True
  then show ?thesis by simp
next
  case False
  assume "0 \<le> x"
  then have "0 \<le> x / 2 powi (expo x - 52)" by simp
  then have "rne 0 \<le> rne (x / 2 powi (expo x - 52))" by (rule rne_mono)
  then have "0 \<le> rne (x / 2 powi (expo x - 52))" using rne_of_int [of 0] by simp
  then show ?thesis using False by (simp add: fl_def)
qed

lemma rne_ge: "of_int n \<le> x \<Longrightarrow> n \<le> rne x"
  using rne_mono [of "of_int n" x] by simp

lemma rne_le: "x \<le> of_int n \<Longrightarrow> rne x \<le> n"
  using rne_mono [of x "of_int n"] by simp

lemma powi_split:
  "(2::real) powi (e + 1) = of_int (2 ^ 53) * 2 powi (e - 52)"
  "(2::real) powi e = of_int (2 ^ 52) * 2 powi (e - 52)"
proof -
  have "(2::real) powi (53 + (e - 52)) = 2 powi 53 * 2 powi (e - 52)"
    by (rule power_int_add) simp
  moreover have "53 + (e - 52) = e + 1" by simp
  ultimately show "(2::real) powi (e + 1) = of_int (2 ^ 53) * 2 powi (e - 52)" by simp
  have "(2::real) powi (52 + (e - 52)) = 2 powi 52 * 2 powi (e - 52)"
    by (rule power_int_add) simp
  moreover have "52 + (e - 52) = e" by simp
  ultimately show "(2::real) powi e = of_int (2 ^ 52) * 2 powi (e - 52)" by simp
qed

lemma fl_upper: "0 < x \<Longrightarrow> fl x \<le> 2 powi (expo x + 1)"
proof -
  assume x: "0 < x"
  let ?q = "(2::real) powi (expo x - 52)"
  have q: "0 < ?q" by simp
  have "x < 2 powi (expo x + 1)" using expo_upper [of x] x by simp
  then have "x < of_int (2 ^ 53) * ?q" by (simp only: powi_split(1))
  then have "x \<le> of_int (2 ^ 53) * ?q" by (rule less_imp_le)
  then have "x / ?q \<le> of_int (2 ^ 53)" using q by (simp only: pos_divide_le_eq)
  then have "rne (x / ?q) \<le> 2 ^ 53" by (rule rne_le)
  then have "(of_int (rne (x / ?q)) :: real) \<le> of_int (2 ^ 53)" by (simp only: of_int_le_iff)
  then have "of_int (rne (x / ?q)) * ?q \<le> of_int (2 ^ 53) * ?q"
    using q by (intro mult_right_mono) simp_all
  then have "of_int (rne (x / ?q)) * ?q \<le> 2 powi (expo x + 1)" by (simp only: powi_split(1))
  then show ?thesis using x by (simp add: fl_def)
qed

lemma fl_lower: "0 < x \<Longrightarrow> - 1022 < expo x \<Longrightarrow> 2 powi expo x \<le> fl x"
proof -
  assume x: "0 < x" and big: "- 1022 < expo x"
  let ?q = "(2::real) powi (expo x - 52)"
  have q: "0 < ?q" by simp
  have "2 powi expo x \<le> x" using expo_lower [of x] x big by simp
  then have "of_int (2 ^ 52) * ?q \<le> x" by (simp only: powi_split(2) [symmetric])
  then have "of_int (2 ^ 52) \<le> x / ?q" using q by (simp only: pos_le_divide_eq)
  then have "2 ^ 52 \<le> rne (x / ?q)" by (rule rne_ge)
  then have "(of_int (2 ^ 52) :: real) \<le> of_int (rne (x / ?q))" by (simp only: of_int_le_iff)
  then have "of_int (2 ^ 52) * ?q \<le> of_int (rne (x / ?q)) * ?q"
    using q by (intro mult_right_mono) simp_all
  then have "2 powi expo x \<le> of_int (rne (x / ?q)) * ?q" by (simp only: powi_split(2) [symmetric])
  then show ?thesis using x by (simp add: fl_def)
qed

lemma fl_mono_pos:
  assumes x: "0 < x" and xy: "x \<le> y"
  shows "fl x \<le> fl y"
proof (cases "expo x = expo y")
  case True
  let ?q = "(2::real) powi (expo y - 52)"
  have q: "0 < ?q" by simp
  have "x / ?q \<le> y / ?q" using xy q by (simp add: divide_right_mono)
  then have "rne (x / ?q) \<le> rne (y / ?q)" by (rule rne_mono)
  then have "of_int (rne (x / ?q)) * ?q \<le> of_int (rne (y / ?q)) * ?q"
    using q by (intro mult_right_mono) simp_all
  then show ?thesis using x xy True by (simp add: fl_def)
next
  case False
  then have lt: "expo x < expo y" using expo_mono [OF x xy] by simp
  have y: "0 < y" using x xy by simp
  have big: "- 1022 < expo y" using lt by (simp add: expo_def)
  have "fl x \<le> 2 powi (expo x + 1)" by (rule fl_upper [OF x])
  also have "(2::real) powi (expo x + 1) \<le> 2 powi expo y"
    using lt by (intro power_int_increasing) simp_all
  also have "\<dots> \<le> fl y" by (rule fl_lower [OF y big])
  finally show ?thesis .
qed

lemma fl_mono: "x \<le> y \<Longrightarrow> fl x \<le> fl y"
proof -
  assume xy: "x \<le> y"
  consider "0 < x" | "x \<le> 0" "0 \<le> y" | "y < 0" by linarith
  then show ?thesis
  proof cases
    case 1
    then show ?thesis using xy by (rule fl_mono_pos)
  next
    case 2
    have "fl x \<le> 0" using fl_nonneg [of "- x"] 2(1) by (simp add: fl_minus)
    moreover have "0 \<le> fl y" using 2(2) by (rule fl_nonneg)
    ultimately show ?thesis by simp
  next
    case 3
    then have "fl (- y) \<le> fl (- x)" using xy by (intro fl_mono_pos) simp_all
    then show ?thesis by (simp add: fl_minus)
  qed
qed

lemma fl_near:
  assumes "2 powi e \<le> \<bar>x\<bar>" and "\<bar>x\<bar> < 2 powi (e + 1)" and "- 1022 \<le> e"
    and "\<bar>x / 2 powi (e - 52) - of_int n\<bar> < 1/2"
  shows "fl x = of_int n * 2 powi (e - 52)"
  by (simp only: fl_eval [OF assms(1-3)] rne_near [OF assms(4)])

lemma fl_tie:
  assumes "2 powi e \<le> \<bar>x\<bar>" and "\<bar>x\<bar> < 2 powi (e + 1)" and "- 1022 \<le> e"
    and "x / 2 powi (e - 52) = of_int n + 1/2"
  shows "fl x = of_int (if even n then n else n + 1) * 2 powi (e - 52)"
  by (simp only: fl_eval [OF assms(1-3)] rne_tie [OF assms(4)])

lemma fl_exact:
  assumes "2 powi e \<le> \<bar>x\<bar>" and "\<bar>x\<bar> < 2 powi (e + 1)" and "- 1022 \<le> e"
    and "x / 2 powi (e - 52) \<in> \<int>"
  shows "fl x = x"
proof -
  from assms(4) obtain n where n: "x / 2 powi (e - 52) = of_int n" by (auto elim: Ints_cases)
  then have "fl x = of_int n * 2 powi (e - 52)"
    by (simp only: fl_eval [OF assms(1-3)] rne_of_int)
  also have "\<dots> = x" using n by (simp add: field_simps)
  finally show ?thesis .
qed

lemma fl_half: "fl (1/2) = 1/2" by (rule fl_exact [of "-1"]) simp_all
lemma fl_quarter: "fl (1/4) = 1/4" by (rule fl_exact [of "-2"]) simp_all
lemma fl_10: "fl 10 = 10" by (rule fl_exact [of 3]) simp_all
lemma fl_16: "fl 16 = 16" by (rule fl_exact [of 4]) simp_all
lemma fl_45: "fl 45 = 45" by (rule fl_exact [of 5]) simp_all
lemma fl_50: "fl 50 = 50" by (rule fl_exact [of 5]) simp_all
lemma fl_55: "fl 55 = 55" by (rule fl_exact [of 5]) simp_all
lemma fl_64: "fl 64 = 64" by (rule fl_exact [of 6]) simp_all
lemma fl_105: "fl 105 = 105" by (rule fl_exact [of 6]) simp_all

lemma fl_c005: "fl (1/20) = 3602879701896397 / 2 ^ 56"
  using fl_near [of "-5" "1/20" 7205759403792794] by simp

lemma fl_c010: "fl (1/10) = 3602879701896397 / 2 ^ 55"
  using fl_near [of "-4" "1/10" 7205759403792794] by simp

lemma fl_c11: "fl (11/10) = 2476979795053773 / 2 ^ 51"
  using fl_near [of 0 "11/10" 4953959590107546] by simp

lemma fl_fix_c005: "fl (3602879701896397 / 2 ^ 56) = 3602879701896397 / 2 ^ 56"
  by (rule fl_exact [of "-5"]) simp_all

lemma fl_bound_50: "fl (2476979795053773 / 2 ^ 51 * 50) = 55 + 1 / 2 ^ 47"
  using fl_near [of 5 "2476979795053773 / 2 ^ 51 * 50" 7740561859543041] by simp

lemma fl_bound_50_fix: "fl (55 + 1 / 2 ^ 47) = 55 + 1 / 2 ^ 47"
  by (rule fl_exact [of 5]) simp_all

lemma fl_bound_50_plus_50: "fl (50 + (55 + 1 / 2 ^ 47)) = 105"
  using fl_tie [of 6 "50 + (55 + 1 / 2 ^ 47)" 7388718138654720] by simp

lemma fl_size_top_1:
  "fl (3602879701896397 / 2 ^ 56 * (1 - 1 / 2 ^ 53)) = 7205759403792793 / 2 ^ 57"
  using fl_near [of "-5" "3602879701896397 / 2 ^ 56 * (1 - 1 / 2 ^ 53)" 7205759403792793] by simp

lemma fl_size_top_2:
  "fl (7205759403792793 / 2 ^ 57 + 3602879701896397 / 2 ^ 56) = 3602879701896397 / 2 ^ 55"
  using fl_tie [of "-4" "7205759403792793 / 2 ^ 57 + 3602879701896397 / 2 ^ 56" 7205759403792793]
  by simp

lemma fl_dist_top_1: "fl (90 * (1 - 1 / 2 ^ 53)) = 6333186975989759 / 2 ^ 46"
  using fl_near [of 6 "90 * (1 - 1 / 2 ^ 53)" 6333186975989759] by simp

lemma fl_dist_top_2: "fl (6333186975989759 / 2 ^ 46 + 10) = 7036874417766399 / 2 ^ 46"
  using fl_near [of 6 "6333186975989759 / 2 ^ 46 + 10" 7036874417766399] by simp

lemma fl_two_mpi: "fl (2 * (884279719003555 / 2 ^ 48)) = 884279719003555 / 2 ^ 47"
  using fl_exact [of 2 "2 * (884279719003555 / 2 ^ 48)"] by simp

lemma fl_angle_top:
  "fl (884279719003555 / 2 ^ 47 * (1 - 1 / 2 ^ 53)) = 7074237752028439 / 2 ^ 50"
  using fl_near [of 2 "884279719003555 / 2 ^ 47 * (1 - 1 / 2 ^ 53)" 7074237752028439] by simp

lemma binary64_sel [simp]:
  "rnd binary64 = fl" "cosf binary64 x = fl (cos x)" "sinf binary64 x = fl (sin x)"
  "mpi binary64 = 884279719003555 / 2 ^ 48"
  by (simp_all add: binary64_def)

lemma exact_sel [simp]:
  "rnd exact x = x" "cosf exact = cos" "sinf exact = sin" "mpi exact = pi"
  by (simp_all add: exact_def)

lemma sum_sin_31:
  "(\<Sum>m<31. sin_coeff m * x ^ m) =
     x - x^3 / fact 3 + x^5 / fact 5 - x^7 / fact 7 + x^9 / fact 9 - x^11 / fact 11
       + x^13 / fact 13 - x^15 / fact 15 + x^17 / fact 17 - x^19 / fact 19 + x^21 / fact 21
       - x^23 / fact 23 + x^25 / fact 25 - x^27 / fact 27 + x^29 / fact 29"
  by (simp add: lessThan_nat_numeral sin_coeff_def del: fact_numeral)

lemma mpi_less_pi: "884279719003555 / 2 ^ 48 < pi"
proof (rule ccontr)
  define x :: real where "x = 884279719003555 / 2 ^ 48"
  assume "\<not> 884279719003555 / 2 ^ 48 < pi"
  then have "pi \<le> x" by (simp add: x_def)
  moreover have "x < 2 * pi" using pi_ge_two by (simp add: x_def)
  ultimately have le: "sin x \<le> 0" by (rule sin_le_zero)
  have "\<bar>sin x - (\<Sum>m<31. sin_coeff m * x ^ m)\<bar> \<le> inverse (fact 31) * \<bar>x\<bar> ^ 31"
    by (rule Maclaurin_sin_bound)
  then have "(\<Sum>m<31. sin_coeff m * x ^ m) - inverse (fact 31) * \<bar>x\<bar> ^ 31 \<le> sin x"
    by linarith
  moreover have "0 < (\<Sum>m<31. sin_coeff m * x ^ m) - inverse (fact 31) * \<bar>x\<bar> ^ 31"
    unfolding sum_sin_31 by (simp add: x_def fact_numeral power_divide)
  ultimately show False using le by linarith
qed

lemma reset_angle_binary64:
  assumes "0 \<le> u" and "u \<le> 1 - 1 / 2 ^ 53"
  shows "0 \<le> fmul binary64 (fmul binary64 2 (mpi binary64)) u"
    and "fmul binary64 (fmul binary64 2 (mpi binary64)) u < 2 * mpi binary64"
    and "fmul binary64 (fmul binary64 2 (mpi binary64)) u < 2 * pi"
proof -
  let ?t = "884279719003555 / 2 ^ 47 :: real"
  have t: "fmul binary64 2 (mpi binary64) = ?t"
    unfolding fmul_def binary64_sel by (rule fl_two_mpi)
  have a: "fmul binary64 (fmul binary64 2 (mpi binary64)) u = fl (?t * u)"
    unfolding t unfolding fmul_def binary64_sel by (rule refl)
  have "fl 0 \<le> fl (?t * u)" using assms(1) by (intro fl_mono) simp
  then show "0 \<le> fmul binary64 (fmul binary64 2 (mpi binary64)) u" unfolding a by simp
  have "fl (?t * u) \<le> fl (?t * (1 - 1 / 2 ^ 53))"
    using assms(2) by (intro fl_mono mult_left_mono) simp_all
  then have b: "fl (?t * u) \<le> 7074237752028439 / 2 ^ 50" by (simp only: fl_angle_top)
  then show c: "fmul binary64 (fmul binary64 2 (mpi binary64)) u < 2 * mpi binary64"
    unfolding a by simp
  then show "fmul binary64 (fmul binary64 2 (mpi binary64)) u < 2 * pi"
    using mpi_less_pi by simp
qed

lemma reset_distance_binary64:
  assumes "0 \<le> u" and "u \<le> 1 - 1 / 2 ^ 53"
  shows "10 \<le> fadd binary64 (fmul binary64 90 u) 10"
    and "fadd binary64 (fmul binary64 90 u) 10 < 100"
proof -
  have a: "fadd binary64 (fmul binary64 90 u) 10 = fl (fl (90 * u) + 10)"
    by (simp add: fmul_def fadd_def)
  have "fl 0 \<le> fl (90 * u)" using assms(1) by (intro fl_mono) simp
  then have "fl 10 \<le> fl (fl (90 * u) + 10)" by (intro fl_mono) simp
  then show "10 \<le> fadd binary64 (fmul binary64 90 u) 10" unfolding a by (simp add: fl_10)
  have "fl (90 * u) \<le> fl (90 * (1 - 1 / 2 ^ 53))" using assms(2) by (intro fl_mono) simp
  then have "fl (90 * u) \<le> 6333186975989759 / 2 ^ 46" by (simp only: fl_dist_top_1)
  then have "fl (fl (90 * u) + 10) \<le> fl (6333186975989759 / 2 ^ 46 + 10)"
    by (intro fl_mono) simp
  then have "fl (fl (90 * u) + 10) \<le> 7036874417766399 / 2 ^ 46" by (simp only: fl_dist_top_2)
  then show "fadd binary64 (fmul binary64 90 u) 10 < 100" unfolding a by simp
qed

lemma reset_size_binary64:
  assumes "0 \<le> u" and "u \<le> 1 - 1 / 2 ^ 53"
  shows "lit binary64 0.05 \<le> fadd binary64 (fmul binary64 (lit binary64 0.05) u) (lit binary64 0.05)"
    and "fadd binary64 (fmul binary64 (lit binary64 0.05) u) (lit binary64 0.05) \<le> lit binary64 0.10"
    and "0.05 \<le> fadd binary64 (fmul binary64 (lit binary64 0.05) u) (lit binary64 0.05)"
proof -
  let ?c = "3602879701896397 / 2 ^ 56 :: real"
  have l5: "lit binary64 0.05 = ?c" using fl_c005 by (simp add: lit_def)
  have l10: "lit binary64 0.10 = 3602879701896397 / 2 ^ 55" using fl_c010 by (simp add: lit_def)
  have a: "fadd binary64 (fmul binary64 ?c u) ?c = fl (fl (?c * u) + ?c)"
    unfolding fmul_def fadd_def binary64_sel by (rule refl)
  have "fl 0 \<le> fl (?c * u)" using assms(1) by (intro fl_mono) simp
  then have "fl ?c \<le> fl (fl (?c * u) + ?c)" by (intro fl_mono) simp
  then have lo: "?c \<le> fl (fl (?c * u) + ?c)" by (simp only: fl_fix_c005)
  then show "lit binary64 0.05 \<le>
      fadd binary64 (fmul binary64 (lit binary64 0.05) u) (lit binary64 0.05)"
    unfolding l5 a .
  have "fl (?c * u) \<le> fl (?c * (1 - 1 / 2 ^ 53))"
    using assms(2) by (intro fl_mono mult_left_mono) simp_all
  then have "fl (?c * u) \<le> 7205759403792793 / 2 ^ 57" by (simp only: fl_size_top_1)
  then have "fl (fl (?c * u) + ?c) \<le> fl (7205759403792793 / 2 ^ 57 + ?c)"
    by (intro fl_mono) simp
  then have "fl (fl (?c * u) + ?c) \<le> 3602879701896397 / 2 ^ 55" by (simp only: fl_size_top_2)
  then show "fadd binary64 (fmul binary64 (lit binary64 0.05) u) (lit binary64 0.05)
      \<le> lit binary64 0.10"
    unfolding l5 l10 a .
  have "(0.05::real) \<le> ?c" by simp
  then show "0.05 \<le> fadd binary64 (fmul binary64 (lit binary64 0.05) u) (lit binary64 0.05)"
    using lo unfolding l5 a by linarith
qed

lemma reset_ranges_exact:
  assumes "0 \<le> u" and "u \<le> 1 - 1 / 2 ^ 53"
  shows "0 \<le> fmul exact (fmul exact 2 (mpi exact)) u"
    and "fmul exact (fmul exact 2 (mpi exact)) u < 2 * pi"
    and "10 \<le> fadd exact (fmul exact 90 u) 10"
    and "fadd exact (fmul exact 90 u) 10 < 100"
    and "0.05 \<le> fadd exact (fmul exact (lit exact 0.05) u) (lit exact 0.05)"
    and "fadd exact (fmul exact (lit exact 0.05) u) (lit exact 0.05) \<le> 0.10"
proof -
  have u1: "u < 1" using assms(2) by (smt (verit) zero_less_power divide_pos_pos)
  show "0 \<le> fmul exact (fmul exact 2 (mpi exact)) u" using assms(1) by (simp add: fmul_def)
  show "fmul exact (fmul exact 2 (mpi exact)) u < 2 * pi" using u1 by (simp add: fmul_def)
  show "10 \<le> fadd exact (fmul exact 90 u) 10" using assms(1) by (simp add: fmul_def fadd_def)
  show "fadd exact (fmul exact 90 u) 10 < 100" using u1 by (simp add: fmul_def fadd_def)
  show "0.05 \<le> fadd exact (fmul exact (lit exact 0.05) u) (lit exact 0.05)"
    using assms(1) by (simp add: fmul_def fadd_def lit_def)
  show "fadd exact (fmul exact (lit exact 0.05) u) (lit exact 0.05) \<le> 0.10"
    using u1 by (simp add: fmul_def fadd_def lit_def)
qed

lemma loop_upto_fl_Suc:
  "loop_upto_fl ar nap (x0, y0) (Suc i) sf g =
     update_star_fl ar nap x0 y0 (fmul ar (lit ar 1.1) (max x0 y0)) i
       (loop_upto_fl ar nap (x0, y0) i sf g)"
  by (simp add: loop_upto_fl_def Let_def)

lemma loop_upto_fl_reset_step:
  assumes wf: "wf_field sf" and i: "i < length (stars sf)"
    and reset: "distance (grow_fl ar nap (stars sf ! i)) > fmul ar (lit ar 1.1) (max x0 y0)"
  shows "snd (loop_upto_fl ar nap (x0, y0) (Suc i) sf g) =
           stl (stl (stl (snd (loop_upto_fl ar nap (x0, y0) i sf g))))"
proof -
  obtain sfi gi where li: "loop_upto_fl ar nap (x0, y0) i sf g = (sfi, gi)"
    by (cases "loop_upto_fl ar nap (x0, y0) i sf g")
  have ile: "i \<le> length (stars sf)" using i by simp
  have sti: "stars sfi ! i = stars sf ! i"
    using loop_upto_frame_fl(3) [OF wf ile, where ar=ar and nap=nap and c="(x0, y0)" and g=g
        and i=i, unfolded li fst_conv] by simp
  have r: "distance (grow_fl ar nap (stars sfi ! i)) > fmul ar (lit ar 1.1) (max x0 y0)"
    using reset by (simp only: sti)
  show ?thesis
    unfolding loop_upto_fl_Suc li update_star_reset_fl [OF r]
    by (simp add: Star_reset_eq_fl)
qed

lemma update_glsl_reset_frame_fl:
  assumes wf: "wf_field sf" and i: "i < length (stars sf)"
    and reset: "distance (grow_fl ar nap (stars sf ! i)) > fmul ar (lit ar 1.1) (max x0 y0)"
  shows "stars (fst (update_glsl_fl ar nap (x0, y0) sf g)) ! i =
           fst (Star_reset_fl ar (grow_fl ar nap (stars sf ! i))
                  (snd (loop_upto_fl ar nap (x0, y0) i sf g)))"
    and "k < 4 \<Longrightarrow> j < vsize \<Longrightarrow>
         vertices (fst (update_glsl_fl ar nap (x0, y0) sf g)) ! (base_idx (stars sf ! i) + k * vsize + j) =
           vertices sf ! (base_idx (stars sf ! i) + k * vsize + j)"
proof -
  show "stars (fst (update_glsl_fl ar nap (x0, y0) sf g)) ! i =
           fst (Star_reset_fl ar (grow_fl ar nap (stars sf ! i))
                  (snd (loop_upto_fl ar nap (x0, y0) i sf g)))"
    using update_glsl_star_fl(1) [OF wf i, where ar=ar and nap=nap and ?x0.0=x0 and ?y0.0=y0 and g=g]
      reset by (simp only: if_True)
  assume k: "k < 4" and j: "j < vsize"
  show "vertices (fst (update_glsl_fl ar nap (x0, y0) sf g)) ! (base_idx (stars sf ! i) + k * vsize + j) =
           vertices sf ! (base_idx (stars sf ! i) + k * vsize + j)"
  proof (cases "j < 3")
    case True
    show ?thesis
      using update_glsl_star_fl(2) [OF wf i slot_dyn(1) [OF wf i k True],
          where ar=ar and nap=nap and ?x0.0=x0 and ?y0.0=y0 and g=g] reset
      by (simp only: if_True)
  next
    case False
    have "base_idx (stars sf ! i) = 28 * i" by (rule wf_base [OF wf i])
    then have "(base_idx (stars sf ! i) + k * vsize + j) mod vsize = j"
      using j by (simp add: vsize_eq add.assoc) presburger
    then have "3 \<le> (base_idx (stars sf ! i) + k * vsize + j) mod vsize" using False by simp
    then have "\<forall>q<length (stars sf). \<not> dyn_slot q (base_idx (stars sf ! i) + k * vsize + j)"
      using static_not_dyn by blast
    then show ?thesis by (rule update_glsl_frame_fl(6) [OF wf])
  qed
qed

lemma resets_throughout_run_fl:
  assumes "wf_field (fst s)" and "i < length (stars (fst s))"
    and "resets_throughout_fl ar i fs s" and "k < 4" and "j < vsize"
  shows "vertices (fst (run_fl ar fs s)) ! (base_idx (stars (fst s) ! i) + k * vsize + j) =
           vertices (fst s) ! (base_idx (stars (fst s) ! i) + k * vsize + j)"
  using assms
proof (induction fs arbitrary: s)
  case Nil
  then show ?case by simp
next
  case (Cons f fs)
  obtain nap x0 y0 where f: "f = (nap, (x0, y0))" by (cases f) auto
  obtain sf g where s: "s = (sf, g)" by (cases s)
  let ?s1 = "update_glsl_fl ar nap (x0, y0) sf g"
  have wf: "wf_field sf" and i: "i < length (stars sf)"
    using Cons.prems by (simp_all add: s)
  have reset: "distance (grow_fl ar nap (stars sf ! i)) > fmul ar (lit ar 1.1) (max x0 y0)"
    and rest: "resets_throughout_fl ar i fs ?s1"
    using Cons.prems(3) by (simp_all add: f s)
  note one = update_glsl_reset_frame_fl(2) [OF wf i reset Cons.prems(4) Cons.prems(5), where g=g]
  note fr = update_glsl_frame_fl [OF wf, where ar=ar and nap=nap and c="(x0, y0)" and g=g]
  have i1: "i < length (stars (fst ?s1))" using i fr(2) by simp
  note ih = Cons.IH [OF fr(1) i1 rest Cons.prems(4) Cons.prems(5)]
  show ?case using ih one by (simp add: f s fr(5))
qed

lemma wf_field_demo1:
  "wf_field \<lparr>indices = [0, 1, 2, 2, 2, 3, 0], vertices = quad,
             stars = [\<lparr>angle = a, distance = d, size_star = z, base_idx = 0\<rparr>]\<rparr>"
  by (simp add: wf_field_def length_quad vsize_eq)

lemma wf_field_demo2:
  "wf_field \<lparr>indices = [0, 1, 2, 2, 2, 3, 0, 4, 5, 6, 6, 6, 7, 4], vertices = quad @ quad,
             stars = [\<lparr>angle = a, distance = d, size_star = z, base_idx = 0\<rparr>,
                      \<lparr>angle = a', distance = d', size_star = z', base_idx = 28\<rparr>]\<rparr>"
proof -
  have "[0 ..< 2] = [0, 1::nat]" by code_simp
  then show ?thesis by (simp add: wf_field_def length_quad vsize_eq)
qed

lemma star_update_all:
  "st\<lparr>angle := a, distance := d, size_star := z\<rparr> =
     \<lparr>angle = a, distance = d, size_star = z, base_idx = base_idx st\<rparr>"
  by (cases st) simp

lemma reset_ranges_exact_open:
  assumes "0 \<le> u" and "u < 1"
  shows "0 \<le> fmul exact (fmul exact 2 (mpi exact)) u"
    and "fmul exact (fmul exact 2 (mpi exact)) u < 2 * pi"
    and "10 \<le> fadd exact (fmul exact 90 u) 10"
    and "fadd exact (fmul exact 90 u) 10 < 100"
    and "0.05 \<le> fadd exact (fmul exact (lit exact 0.05) u) (lit exact 0.05)"
    and "fadd exact (fmul exact (lit exact 0.05) u) (lit exact 0.05) < 0.10"
proof -
  show "0 \<le> fmul exact (fmul exact 2 (mpi exact)) u" using assms(1) by (simp add: fmul_def)
  show "fmul exact (fmul exact 2 (mpi exact)) u < 2 * pi" using assms(2) by (simp add: fmul_def)
  show "10 \<le> fadd exact (fmul exact 90 u) 10" using assms(1) by (simp add: fmul_def fadd_def)
  show "fadd exact (fmul exact 90 u) 10 < 100" using assms(2) by (simp add: fmul_def fadd_def)
  show "0.05 \<le> fadd exact (fmul exact (lit exact 0.05) u) (lit exact 0.05)"
    using assms(1) by (simp add: fmul_def fadd_def lit_def)
  show "fadd exact (fmul exact (lit exact 0.05) u) (lit exact 0.05) < 0.10"
    using assms(2) by (simp add: fmul_def fadd_def lit_def)
qed

lemma reset_size_top_binary64:
  "fadd binary64 (fmul binary64 (lit binary64 0.05) (1 - 1 / 2 ^ 53)) (lit binary64 0.05) =
     3602879701896397 / 2 ^ 55"
proof -
  let ?c = "3602879701896397 / 2 ^ 56 :: real"
  have l5: "lit binary64 0.05 = ?c" using fl_c005 by (simp add: lit_def)
  show ?thesis
    unfolding l5 fmul_def fadd_def binary64_sel fl_size_top_1 by (rule fl_size_top_2)
qed

lemma lit_010_binary64: "lit binary64 0.10 = 3602879701896397 / 2 ^ 55"
  using fl_c010 by (simp add: lit_def)

subsection \<open>The exact arithmetic gives back the first model\<close>

lemma Star_reset_fl_exact: "Star_reset_fl exact st g = Star_reset st g"
  by (simp add: Star_reset_fl_def Star_reset_def fmul_def fadd_def lit_def)

lemma Star_init_fl_exact: "Star_init_fl exact i g = Star_init i g"
  by (simp add: Star_init_fl_def Star_init_def Star_reset_fl_exact lit_def)

lemma Star_update_fl_exact: "Star_update_fl exact st x0 y0 sf = Star_update st x0 y0 sf"
  by (simp add: Star_update_fl_def Star_update_def fmul_def fadd_def)

lemma make_stars_fl_exact: "make_stars_fl exact n g = make_stars n g"
  by (simp add: make_stars_fl_def make_stars_def Star_init_fl_exact)

lemma Starfield_init_fl_exact: "Starfield_init_fl exact n g = Starfield_init n g"
  by (simp add: Starfield_init_fl_def Starfield_init_def make_stars_fl_exact)

lemma grow_fl_exact: "grow_fl exact nap st = grow nap st"
  by (simp add: grow_fl_def grow_def fmul_def fadd_def lit_def)

lemma update_star_fl_exact: "update_star_fl exact nap x0 y0 m i s = update_star nap x0 y0 m i s"
  by (cases s)
    (simp add: update_star_fl_def update_star_def grow_fl_exact Star_reset_fl_exact
      Star_update_fl_exact Let_def)

lemma update_glsl_fl_exact: "update_glsl_fl exact nap c sf g = update_glsl nap c sf g"
proof -
  have "update_star_fl exact nap x0 y0 m = update_star nap x0 y0 m" for x0 y0 m
    by (intro ext) (rule update_star_fl_exact)
  then show ?thesis
    by (simp add: update_glsl_fl_def update_glsl_def fmul_def lit_def split: prod.splits)
qed

lemma run_fl_exact: "run_fl exact fs s = run fs s"
  by (induction fs s rule: run.induct) (simp_all add: update_glsl_fl_exact)

section \<open>The claims\<close>

text \<open>
  C1. In every update call the loop body first replaces the star's distance by the
  product \<open>distance * (2 * nap + 1)\<close> and its size by \<open>size + 0.25 * nap\<close>, each
  operation rounded as the source computes it, and only then compares the distance with
  the bound: both branches work on the grown star, so a star is reset exactly when its
  grown distance exceeds the (rounded) bound \<open>1.1 * max x0 y0\<close>, and otherwise ends the
  call with exactly the grown state. With \<open>nap = 0\<close> the distance of a star is
  unchanged. Without rounding the grown distance is the real product \<open>D0 * (2 * nap + 1)\<close>.
\<close>

theorem growth_before_boundary_check:
  assumes wf: "wf_field sf" and i: "i < length (stars sf)"
  shows "distance (grow_fl ar nap (stars sf ! i)) =
           fmul ar (distance (stars sf ! i)) (fadd ar (fmul ar 2 nap) 1) \<and>
         size_star (grow_fl ar nap (stars sf ! i)) =
           fadd ar (size_star (stars sf ! i)) (fmul ar (lit ar 0.25) nap) \<and>
         angle (grow_fl ar nap (stars sf ! i)) = angle (stars sf ! i) \<and>
         base_idx (grow_fl ar nap (stars sf ! i)) = base_idx (stars sf ! i) \<and>
         (rnd ar 0 = 0 \<and> rnd ar 1 = 1 \<and> rnd ar (distance (stars sf ! i)) = distance (stars sf ! i) \<longrightarrow>
            distance (grow_fl ar 0 (stars sf ! i)) = distance (stars sf ! i)) \<and>
         (fl (distance (stars sf ! i)) = distance (stars sf ! i) \<longrightarrow>
            distance (grow_fl binary64 0 (stars sf ! i)) = distance (stars sf ! i)) \<and>
         distance (grow_fl exact nap (stars sf ! i)) = distance (stars sf ! i) * (2 * nap + 1) \<and>
         update_star_fl ar nap x0 y0 m i (sf, g) =
           (if fmul ar (distance (stars sf ! i)) (fadd ar (fmul ar 2 nap) 1) > m
            then (sf\<lparr>stars := (stars sf)[i := fst (Star_reset_fl ar (grow_fl ar nap (stars sf ! i)) g)]\<rparr>,
                  snd (Star_reset_fl ar (grow_fl ar nap (stars sf ! i)) g))
            else (Star_update_fl ar (grow_fl ar nap (stars sf ! i)) x0 y0
                    (sf\<lparr>stars := (stars sf)[i := grow_fl ar nap (stars sf ! i)]\<rparr>), g)) \<and>
         stars (fst (update_glsl_fl ar nap (x0, y0) sf g)) ! i =
           (if fmul ar (distance (stars sf ! i)) (fadd ar (fmul ar 2 nap) 1) >
                 fmul ar (lit ar 1.1) (max x0 y0)
            then fst (Star_reset_fl ar (grow_fl ar nap (stars sf ! i))
                        (snd (loop_upto_fl ar nap (x0, y0) i sf g)))
            else grow_fl ar nap (stars sf ! i))"
proof -
  have d: "distance (grow_fl ar nap (stars sf ! i)) =
      fmul ar (distance (stars sf ! i)) (fadd ar (fmul ar 2 nap) 1)" for ar nap
    by (simp add: grow_eq_fl)
  have z: "distance (grow_fl ar 0 (stars sf ! i)) = distance (stars sf ! i)"
    if "rnd ar 0 = 0 \<and> rnd ar 1 = 1 \<and> rnd ar (distance (stars sf ! i)) = distance (stars sf ! i)"
    for ar
    using that by (simp add: d fmul_def fadd_def)
  have zb: "distance (grow_fl binary64 0 (stars sf ! i)) = distance (stars sf ! i)"
    if "fl (distance (stars sf ! i)) = distance (stars sf ! i)"
    using that z [of binary64] by (simp add: fl_1)
  have e: "distance (grow_fl exact nap (stars sf ! i)) = distance (stars sf ! i) * (2 * nap + 1)"
    by (simp add: d fmul_def fadd_def)
  have b: "update_star_fl ar nap x0 y0 m i (sf, g) =
           (if fmul ar (distance (stars sf ! i)) (fadd ar (fmul ar 2 nap) 1) > m
            then (sf\<lparr>stars := (stars sf)[i := fst (Star_reset_fl ar (grow_fl ar nap (stars sf ! i)) g)]\<rparr>,
                  snd (Star_reset_fl ar (grow_fl ar nap (stars sf ! i)) g))
            else (Star_update_fl ar (grow_fl ar nap (stars sf ! i)) x0 y0
                    (sf\<lparr>stars := (stars sf)[i := grow_fl ar nap (stars sf ! i)]\<rparr>), g))"
  proof (cases "m < fmul ar (distance (stars sf ! i)) (fadd ar (fmul ar 2 nap) 1)")
    case True
    then have "distance (grow_fl ar nap (stars sf ! i)) > m" by (simp add: d)
    from update_star_reset_fl [OF this] True show ?thesis by (simp only: if_True)
  next
    case False
    then have "\<not> distance (grow_fl ar nap (stars sf ! i)) > m" by (simp add: d)
    from update_star_write_fl [OF this] False show ?thesis by (simp only: if_False)
  qed
  have u: "stars (fst (update_glsl_fl ar nap (x0, y0) sf g)) ! i =
           (if fmul ar (distance (stars sf ! i)) (fadd ar (fmul ar 2 nap) 1) >
                 fmul ar (lit ar 1.1) (max x0 y0)
            then fst (Star_reset_fl ar (grow_fl ar nap (stars sf ! i))
                        (snd (loop_upto_fl ar nap (x0, y0) i sf g)))
            else grow_fl ar nap (stars sf ! i))"
    using update_glsl_star_fl(1) [OF wf i, where ar=ar and nap=nap and ?x0.0=x0 and ?y0.0=y0 and g=g]
    by (simp only: d)
  show ?thesis
    using d [of ar nap] z [of ar] zb e b u by (simp add: grow_eq_fl)
qed

theorem growth_before_boundary_check_witness:
  "wf_field \<lparr>indices = [0, 1, 2, 2, 2, 3, 0], vertices = quad,
      stars = [\<lparr>angle = 0, distance = 55 + 1 / 2 ^ 47, size_star = 1/4, base_idx = 0\<rparr>]\<rparr> \<and>
   (0::nat) < length (stars \<lparr>indices = [0, 1, 2, 2, 2, 3, 0], vertices = quad,
      stars = [\<lparr>angle = 0, distance = 55 + 1 / 2 ^ 47, size_star = 1/4, base_idx = 0\<rparr>]\<rparr>) \<and>
   rnd binary64 0 = 0 \<and> rnd binary64 1 = 1 \<and> rnd binary64 (55 + 1 / 2 ^ 47) = 55 + 1 / 2 ^ 47 \<and>
   fmul binary64 (lit binary64 1.1) (max 50 50) = 55 + 1 / 2 ^ 47 \<and>
   stars (fst (update_glsl_fl binary64 0 (50, 50)
      \<lparr>indices = [0, 1, 2, 2, 2, 3, 0], vertices = quad,
        stars = [\<lparr>angle = 0, distance = 55 + 1 / 2 ^ 47, size_star = 1/4, base_idx = 0\<rparr>]\<rparr>
      (sconst 0))) ! 0 =
     \<lparr>angle = 0, distance = 55 + 1 / 2 ^ 47, size_star = 1/4, base_idx = 0\<rparr>"
proof -
  define D :: real where "D = 55 + 1 / 2 ^ 47"
  define st where "st = \<lparr>angle = 0, distance = D, size_star = 1/4, base_idx = 0\<rparr>"
  define F where "F = \<lparr>indices = [0, 1, 2, 2, 2, 3, 0], vertices = quad, stars = [st]\<rparr>"
  have wf: "wf_field F" unfolding F_def st_def by (rule wf_field_demo1)
  have l: "(0::nat) < length (stars F)" by (simp add: F_def)
  have s0: "stars F ! 0 = st" by (simp add: F_def)
  have fD: "fl D = D" unfolding D_def by (rule fl_bound_50_fix)
  have r: "rnd binary64 0 = 0" "rnd binary64 1 = 1" "rnd binary64 D = D"
    by (simp_all add: fl_1 fD)
  have m: "max (50::real) 50 = 50" by simp
  have bnd: "fmul binary64 (lit binary64 1.1) (max 50 50) = D"
    unfolding fmul_def lit_def binary64_sel m fl_c11 D_def by (rule fl_bound_50)
  have gr: "fmul binary64 D (fadd binary64 (fmul binary64 2 0) 1) = D"
    by (simp add: fmul_def fadd_def fl_1 fD)
  have sz: "fadd binary64 (1/4) (fmul binary64 (lit binary64 0.25) 0) = 1/4"
    unfolding fmul_def fadd_def lit_def binary64_sel by (simp add: fl_quarter)
  have dst: "distance st = D" and sst: "size_star st = 1/4" by (simp_all add: st_def)
  have "grow_fl binary64 0 st = st\<lparr>distance := D, size_star := 1/4\<rparr>"
    unfolding grow_eq_fl dst sst gr sz by (rule refl)
  also have "\<dots> = st" by (simp add: st_def)
  finally have g0: "grow_fl binary64 0 st = st" .
  note t = growth_before_boundary_check [OF wf l, where ar=binary64 and nap=0 and ?x0.0=50
      and ?y0.0=50 and g="sconst 0" and m=0, unfolded s0]
  from t have "stars (fst (update_glsl_fl binary64 0 (50, 50) F (sconst 0))) ! 0 =
           (if fmul binary64 (distance st) (fadd binary64 (fmul binary64 2 0) 1) >
                 fmul binary64 (lit binary64 1.1) (max 50 50)
            then fst (Star_reset_fl binary64 (grow_fl binary64 0 st)
                        (snd (loop_upto_fl binary64 0 (50, 50) 0 F (sconst 0))))
            else grow_fl binary64 0 st)"
    by (elim conjE)
  then have k: "stars (fst (update_glsl_fl binary64 0 (50, 50) F (sconst 0))) ! 0 = st"
    unfolding dst gr bnd g0 by simp
  show ?thesis
    using wf l r bnd k unfolding F_def st_def D_def by blast
qed

text \<open>
  C2. A star whose grown distance exceeds the bound in an update call is reset: its
  angle, distance and size are computed anew from the next three draws of the generator
  (the distance lies in \<open>[10, 100)\<close>), and none of the scalars of its four vertices is
  written in that call, so they keep the values they had before the call, and before any
  directly preceding calls in which the star was reset as well. In the next call the
  star is either reset again, and its slots stay as they were, or its slots receive the
  centre and size of its then current (grown) state.
\<close>

theorem reset_leaves_slots_stale:
  assumes wf: "wf_field sf" and i: "i < length (stars sf)"
    and rs: "resets_throughout_fl ar i fs (sf, g)"
    and p: "run_fl ar fs (sf, g) = (sfp, gp)"
    and reset: "fmul ar (distance (stars sfp ! i)) (fadd ar (fmul ar 2 nap1) 1) >
                  fmul ar (lit ar 1.1) (max x1 y1)"
    and r: "update_glsl_fl ar nap1 (x1, y1) sfp gp = (sf1, g1)"
    and gi: "snd (loop_upto_fl ar nap1 (x1, y1) i sfp gp) = gi"
    and u: "update_glsl_fl ar nap (x0, y0) sf1 g1 = (sf2, g2)"
    and k: "k < 4" and j: "j < vsize"
  shows "vertices sf1 ! (base_idx (stars sf ! i) + k * vsize + j) =
           vertices sf ! (base_idx (stars sf ! i) + k * vsize + j) \<and>
         stars sf1 ! i =
           \<lparr>angle = fmul ar (fmul ar 2 (mpi ar)) (shd gi),
            distance = fadd ar (fmul ar 90 (shd (stl gi))) 10,
            size_star = fadd ar (fmul ar (lit ar 0.05) (shd (stl (stl gi)))) (lit ar 0.05),
            base_idx = base_idx (stars sf ! i)\<rparr> \<and>
         snd (loop_upto_fl ar nap1 (x1, y1) (Suc i) sfp gp) = stl (stl (stl gi)) \<and>
         ((ar = binary64 \<or> ar = exact) \<and> 0 \<le> shd (stl gi) \<and> shd (stl gi) \<le> 1 - 1 / 2 ^ 53 \<longrightarrow>
            10 \<le> distance (stars sf1 ! i) \<and> distance (stars sf1 ! i) < 100) \<and>
         (\<not> fmul ar (distance (stars sf1 ! i)) (fadd ar (fmul ar 2 nap) 1) >
              fmul ar (lit ar 1.1) (max x0 y0) \<longrightarrow>
            vertices sf2 ! (base_idx (stars sf ! i) + k * vsize) =
              fadd ar x0 (fmul ar (fmul ar (distance (stars sf1 ! i)) (fadd ar (fmul ar 2 nap) 1))
                           (cosf ar (angle (stars sf1 ! i)))) \<and>
            vertices sf2 ! (base_idx (stars sf ! i) + k * vsize + 1) =
              fadd ar y0 (fmul ar (fmul ar (distance (stars sf1 ! i)) (fadd ar (fmul ar 2 nap) 1))
                           (sinf ar (angle (stars sf1 ! i)))) \<and>
            vertices sf2 ! (base_idx (stars sf ! i) + k * vsize + 2) =
              fadd ar (size_star (stars sf1 ! i)) (fmul ar (lit ar 0.25) nap)) \<and>
         (fmul ar (distance (stars sf1 ! i)) (fadd ar (fmul ar 2 nap) 1) >
              fmul ar (lit ar 1.1) (max x0 y0) \<longrightarrow>
            vertices sf2 ! (base_idx (stars sf ! i) + k * vsize + j) =
              vertices sf ! (base_idx (stars sf ! i) + k * vsize + j))"
proof -
  let ?b = "base_idx (stars sf ! i)"
  have wf0: "wf_field (fst (sf, g))" and i0: "i < length (stars (fst (sf, g)))"
    using wf i by simp_all
  note a = resets_throughout_run_fl [OF wf0 i0 rs k j, unfolded p fst_conv]
  note fr = run_frame_fl [OF wf0, where ar=ar and fs=fs, unfolded p fst_conv]
  have wfp: "wf_field sfp" using fr by blast
  have ip: "i < length (stars sfp)" using fr i by simp
  have bp: "base_idx (stars sfp ! i) = ?b" using fr by blast
  have gd: "distance (grow_fl ar n (stars s ! i)) =
      fmul ar (distance (stars s ! i)) (fadd ar (fmul ar 2 n) 1)" for n s
    by (simp add: grow_eq_fl)
  have reset': "distance (grow_fl ar nap1 (stars sfp ! i)) > fmul ar (lit ar 1.1) (max x1 y1)"
    using reset by (simp add: gd)
  have sf1: "fst (update_glsl_fl ar nap1 (x1, y1) sfp gp) = sf1" by (simp add: r)
  have sf2: "fst (update_glsl_fl ar nap (x0, y0) sf1 g1) = sf2" by (simp add: u)
  note one = update_glsl_reset_frame_fl [OF wfp ip reset', where g=gp, unfolded sf1 gi bp]
  have stale: "vertices sf1 ! (?b + k * vsize + j) = vertices sf ! (?b + k * vsize + j)"
    using one(2) [OF k j] a by simp
  have st: "stars sf1 ! i =
           \<lparr>angle = fmul ar (fmul ar 2 (mpi ar)) (shd gi),
            distance = fadd ar (fmul ar 90 (shd (stl gi))) 10,
            size_star = fadd ar (fmul ar (lit ar 0.05) (shd (stl (stl gi)))) (lit ar 0.05),
            base_idx = ?b\<rparr>"
    using one(1) by (simp add: Star_reset_eq_fl star_update_all bp)
  have gen: "snd (loop_upto_fl ar nap1 (x1, y1) (Suc i) sfp gp) = stl (stl (stl gi))"
    using loop_upto_fl_reset_step [OF wfp ip reset', where g=gp] by (simp only: gi)
  have rng: "10 \<le> distance (stars sf1 ! i) \<and> distance (stars sf1 ! i) < 100"
    if h: "(ar = binary64 \<or> ar = exact) \<and> 0 \<le> shd (stl gi) \<and> shd (stl gi) \<le> 1 - 1 / 2 ^ 53"
  proof -
    from h have u0: "0 \<le> shd (stl gi)" and u1: "shd (stl gi) \<le> 1 - 1 / 2 ^ 53" by simp_all
    from h consider "ar = binary64" | "ar = exact" by blast
    then show ?thesis
    proof cases
      case 1
      show ?thesis using reset_distance_binary64 [OF u0 u1] by (simp add: st 1)
    next
      case 2
      show ?thesis using reset_ranges_exact(3,4) [OF u0 u1] by (simp add: st 2)
    qed
  qed
  note fr1 = update_glsl_frame_fl [OF wfp, where ar=ar and nap=nap1 and c="(x1, y1)" and g=gp,
      unfolded sf1]
  have wf1: "wf_field sf1" by (rule fr1(1))
  have i1: "i < length (stars sf1)" using fr1(2) ip by simp
  have b1: "base_idx (stars sf1 ! i) = ?b" using fr1(5) [of i] bp by simp
  have keep: "vertices sf2 ! (?b + k * vsize) =
              fadd ar x0 (fmul ar (fmul ar (distance (stars sf1 ! i)) (fadd ar (fmul ar 2 nap) 1))
                           (cosf ar (angle (stars sf1 ! i)))) \<and>
            vertices sf2 ! (?b + k * vsize + 1) =
              fadd ar y0 (fmul ar (fmul ar (distance (stars sf1 ! i)) (fadd ar (fmul ar 2 nap) 1))
                           (sinf ar (angle (stars sf1 ! i)))) \<and>
            vertices sf2 ! (?b + k * vsize + 2) =
              fadd ar (size_star (stars sf1 ! i)) (fmul ar (lit ar 0.25) nap)"
    if n: "\<not> fmul ar (distance (stars sf1 ! i)) (fadd ar (fmul ar 2 nap) 1) >
              fmul ar (lit ar 1.1) (max x0 y0)"
  proof -
    have n': "\<not> distance (grow_fl ar nap (stars sf1 ! i)) > fmul ar (lit ar 1.1) (max x0 y0)"
      using n by (simp add: gd)
    note w = update_glsl_keep_frame_fl [OF wf1 i1 n' k, where g=g1, unfolded sf2 b1]
    show ?thesis using w [of 0] w [of 1] w [of 2] by (simp add: grow_eq_fl)
  qed
  have again: "vertices sf2 ! (?b + k * vsize + j) = vertices sf ! (?b + k * vsize + j)"
    if y: "fmul ar (distance (stars sf1 ! i)) (fadd ar (fmul ar 2 nap) 1) >
              fmul ar (lit ar 1.1) (max x0 y0)"
  proof -
    have y': "distance (grow_fl ar nap (stars sf1 ! i)) > fmul ar (lit ar 1.1) (max x0 y0)"
      using y by (simp add: gd)
    note w = update_glsl_reset_frame_fl(2) [OF wf1 i1 y' k j, where g=g1, unfolded sf2 b1]
    show ?thesis using w stale by simp
  qed
  show ?thesis using stale st gen rng keep again by blast
qed

theorem reset_leaves_slots_stale_witness:
  "wf_field
     \<lparr>indices = [0, 1, 2, 2, 2, 3, 0, 4, 5, 6, 6, 6, 7, 4], vertices = quad @ quad,
       stars = [\<lparr>angle = 0, distance = 16, size_star = 1/4, base_idx = 0\<rparr>,
                \<lparr>angle = 0, distance = 64, size_star = 1/4, base_idx = 28\<rparr>]\<rparr> \<and>
   (1::nat) < length (stars
     \<lparr>indices = [0, 1, 2, 2, 2, 3, 0, 4, 5, 6, 6, 6, 7, 4], vertices = quad @ quad,
       stars = [\<lparr>angle = 0, distance = 16, size_star = 1/4, base_idx = 0\<rparr>,
                \<lparr>angle = 0, distance = 64, size_star = 1/4, base_idx = 28\<rparr>]\<rparr>) \<and>
   resets_throughout_fl binary64 1 []
     (\<lparr>indices = [0, 1, 2, 2, 2, 3, 0, 4, 5, 6, 6, 6, 7, 4], vertices = quad @ quad,
       stars = [\<lparr>angle = 0, distance = 16, size_star = 1/4, base_idx = 0\<rparr>,
                \<lparr>angle = 0, distance = 64, size_star = 1/4, base_idx = 28\<rparr>]\<rparr>, (0 ## 1/2 ## 0 ## sconst 0)) \<and>
   fmul binary64 64 (fadd binary64 (fmul binary64 2 0) 1) >
     fmul binary64 (lit binary64 1.1) (max 50 50) \<and>
   snd (loop_upto_fl binary64 0 (50, 50) 1
     \<lparr>indices = [0, 1, 2, 2, 2, 3, 0, 4, 5, 6, 6, 6, 7, 4], vertices = quad @ quad,
       stars = [\<lparr>angle = 0, distance = 16, size_star = 1/4, base_idx = 0\<rparr>,
                \<lparr>angle = 0, distance = 64, size_star = 1/4, base_idx = 28\<rparr>]\<rparr>
     (0 ## 1/2 ## 0 ## sconst 0)) = (0 ## 1/2 ## 0 ## sconst 0) \<and>
   (3::nat) < 4 \<and> (0::nat) < vsize \<and>
   (0::real) \<le> 1/2 \<and> (1/2::real) \<le> 1 - 1 / 2 ^ 53 \<and>
   vertices (fst (update_glsl_fl binary64 0 (50, 50)
      \<lparr>indices = [0, 1, 2, 2, 2, 3, 0, 4, 5, 6, 6, 6, 7, 4], vertices = quad @ quad,
       stars = [\<lparr>angle = 0, distance = 16, size_star = 1/4, base_idx = 0\<rparr>,
                \<lparr>angle = 0, distance = 64, size_star = 1/4, base_idx = 28\<rparr>]\<rparr>
      (0 ## 1/2 ## 0 ## sconst 0))) ! 49 = 0 \<and>
   stars (fst (update_glsl_fl binary64 0 (50, 50)
      \<lparr>indices = [0, 1, 2, 2, 2, 3, 0, 4, 5, 6, 6, 6, 7, 4], vertices = quad @ quad,
       stars = [\<lparr>angle = 0, distance = 16, size_star = 1/4, base_idx = 0\<rparr>,
                \<lparr>angle = 0, distance = 64, size_star = 1/4, base_idx = 28\<rparr>]\<rparr>
      (0 ## 1/2 ## 0 ## sconst 0))) ! 1 =
     \<lparr>angle = 0, distance = 55, size_star = 3602879701896397 / 2 ^ 56, base_idx = 28\<rparr> \<and>
   \<not> fmul binary64 55 (fadd binary64 (fmul binary64 2 0) 1) >
       fmul binary64 (lit binary64 1.1) (max 50 50) \<and>
   vertices (fst (update_glsl_fl binary64 0 (50, 50)
     (fst (update_glsl_fl binary64 0 (50, 50)
      \<lparr>indices = [0, 1, 2, 2, 2, 3, 0, 4, 5, 6, 6, 6, 7, 4], vertices = quad @ quad,
       stars = [\<lparr>angle = 0, distance = 16, size_star = 1/4, base_idx = 0\<rparr>,
                \<lparr>angle = 0, distance = 64, size_star = 1/4, base_idx = 28\<rparr>]\<rparr>
      (0 ## 1/2 ## 0 ## sconst 0)))
     (snd (update_glsl_fl binary64 0 (50, 50)
      \<lparr>indices = [0, 1, 2, 2, 2, 3, 0, 4, 5, 6, 6, 6, 7, 4], vertices = quad @ quad,
       stars = [\<lparr>angle = 0, distance = 16, size_star = 1/4, base_idx = 0\<rparr>,
                \<lparr>angle = 0, distance = 64, size_star = 1/4, base_idx = 28\<rparr>]\<rparr>
      (0 ## 1/2 ## 0 ## sconst 0))))) ! 49 = 105 \<and>
   vertices (fst (update_glsl_fl binary64 0 (50, 50)
     (fst (update_glsl_fl binary64 0 (50, 50)
      \<lparr>indices = [0, 1, 2, 2, 2, 3, 0, 4, 5, 6, 6, 6, 7, 4], vertices = quad @ quad,
       stars = [\<lparr>angle = 0, distance = 16, size_star = 1/4, base_idx = 0\<rparr>,
                \<lparr>angle = 0, distance = 64, size_star = 1/4, base_idx = 28\<rparr>]\<rparr>
      (0 ## 1/2 ## 0 ## sconst 0)))
     (snd (update_glsl_fl binary64 0 (50, 50)
      \<lparr>indices = [0, 1, 2, 2, 2, 3, 0, 4, 5, 6, 6, 6, 7, 4], vertices = quad @ quad,
       stars = [\<lparr>angle = 0, distance = 16, size_star = 1/4, base_idx = 0\<rparr>,
                \<lparr>angle = 0, distance = 64, size_star = 1/4, base_idx = 28\<rparr>]\<rparr>
      (0 ## 1/2 ## 0 ## sconst 0))))) ! 50 = 50 \<and>
   vertices (fst (update_glsl_fl binary64 0 (50, 50)
     (fst (update_glsl_fl binary64 0 (50, 50)
      \<lparr>indices = [0, 1, 2, 2, 2, 3, 0, 4, 5, 6, 6, 6, 7, 4], vertices = quad @ quad,
       stars = [\<lparr>angle = 0, distance = 16, size_star = 1/4, base_idx = 0\<rparr>,
                \<lparr>angle = 0, distance = 64, size_star = 1/4, base_idx = 28\<rparr>]\<rparr>
      (0 ## 1/2 ## 0 ## sconst 0)))
     (snd (update_glsl_fl binary64 0 (50, 50)
      \<lparr>indices = [0, 1, 2, 2, 2, 3, 0, 4, 5, 6, 6, 6, 7, 4], vertices = quad @ quad,
       stars = [\<lparr>angle = 0, distance = 16, size_star = 1/4, base_idx = 0\<rparr>,
                \<lparr>angle = 0, distance = 64, size_star = 1/4, base_idx = 28\<rparr>]\<rparr>
      (0 ## 1/2 ## 0 ## sconst 0))))) ! 51 = 3602879701896397 / 2 ^ 56"
proof -
  define D :: real where "D = 55 + 1 / 2 ^ 47"
  define c :: real where "c = 3602879701896397 / 2 ^ 56"
  define s0 where "s0 = \<lparr>angle = 0, distance = 16, size_star = 1/4, base_idx = 0\<rparr>"
  define s1 where "s1 = \<lparr>angle = 0, distance = 64, size_star = 1/4, base_idx = 28\<rparr>"
  define F where "F = \<lparr>indices = [0, 1, 2, 2, 2, 3, 0, 4, 5, 6, 6, 6, 7, 4],
      vertices = quad @ quad, stars = [s0, s1]\<rparr>"
  define G :: rng where "G = 0 ## 1/2 ## 0 ## sconst 0"
  define A where "A = fst (update_glsl_fl binary64 0 (50, 50) F G)"
  define GA where "GA = snd (update_glsl_fl binary64 0 (50, 50) F G)"
  define B where "B = fst (update_glsl_fl binary64 0 (50, 50) A GA)"
  define GB where "GB = snd (update_glsl_fl binary64 0 (50, 50) A GA)"
  have wf: "wf_field F" unfolding F_def s0_def s1_def by (rule wf_field_demo2)
  have l: "(1::nat) < length (stars F)" by (simp add: F_def)
  have f0: "stars F ! 0 = s0" and f1: "stars F ! 1 = s1" by (simp_all add: F_def)
  have rs: "resets_throughout_fl binary64 1 [] (F, G)" by simp
  have p: "run_fl binary64 [] (F, G) = (F, G)" by simp
  have m: "max (50::real) 50 = 50" by simp
  have bnd: "fmul binary64 (lit binary64 1.1) (max 50 50) = D"
    unfolding fmul_def lit_def binary64_sel m fl_c11 D_def by (rule fl_bound_50)
  have one: "fadd binary64 (fmul binary64 2 0) 1 = 1" by (simp add: fmul_def fadd_def fl_1)
  have g16: "fmul binary64 16 1 = 16" by (simp add: fmul_def fl_16)
  have g64: "fmul binary64 64 1 = 64" by (simp add: fmul_def fl_64)
  have g55: "fmul binary64 55 1 = 55" by (simp add: fmul_def fl_55)
  have D: "16 \<le> D" "D < 64" "55 \<le> D" by (simp_all add: D_def)
  have reset: "fmul binary64 (distance (stars F ! 1)) (fadd binary64 (fmul binary64 2 0) 1) >
      fmul binary64 (lit binary64 1.1) (max 50 50)"
    unfolding f1 one bnd using D by (simp add: s1_def g64)
  have r: "update_glsl_fl binary64 0 (50, 50) F G = (A, GA)" by (simp add: A_def GA_def)
  have keep0: "\<not> distance (grow_fl binary64 0 (stars F ! 0)) > D"
    unfolding f0 using D by (simp add: grow_eq_fl s0_def one g16)
  have gi: "snd (loop_upto_fl binary64 0 (50, 50) 1 F G) = G"
  proof -
    have "loop_upto_fl binary64 0 (50, 50) (Suc 0) F G =
        update_star_fl binary64 0 50 50 D 0 (F, G)"
      unfolding loop_upto_fl_Suc bnd by (simp add: loop_upto_fl_def)
    then show ?thesis by (simp add: update_star_write_fl [OF keep0])
  qed
  have u: "update_glsl_fl binary64 0 (50, 50) A GA = (B, GB)" by (simp add: B_def GB_def)
  have k: "(3::nat) < 4" and j: "(0::nat) < vsize" by (simp_all add: vsize_eq)
  note t = reset_leaves_slots_stale [OF wf l rs p reset r gi u k j, unfolded f1]
  have lit5: "lit binary64 0.05 = c" unfolding c_def using fl_c005 by (simp add: lit_def)
  have fixc: "fl c = c" unfolding c_def by (rule fl_fix_c005)
  have ra: "fmul binary64 (fmul binary64 2 (mpi binary64)) (shd G) = 0"
    by (simp add: G_def fmul_def)
  have rd: "fadd binary64 (fmul binary64 90 (shd (stl G))) 10 = 55"
    by (simp add: G_def fmul_def fadd_def fl_45 fl_55)
  have rz: "fadd binary64 (fmul binary64 (lit binary64 0.05) (shd (stl (stl G)))) (lit binary64 0.05) = c"
    unfolding lit5 by (simp add: G_def fmul_def fadd_def fixc)
  have b1: "base_idx s1 = 28" by (simp add: s1_def)
  from t have sA: "stars A ! 1 = \<lparr>angle = 0, distance = 55, size_star = c, base_idx = 28\<rparr>"
    unfolding ra rd rz b1 by (elim conjE)
  from t have vA: "vertices A ! (base_idx s1 + 3 * vsize + 0) = vertices F ! (base_idx s1 + 3 * vsize + 0)"
    by (elim conjE)
  then have vA': "vertices A ! 49 = 0" by (simp add: b1 vsize_eq F_def quad_def)
  have keepA: "\<not> fmul binary64 55 (fadd binary64 (fmul binary64 2 0) 1) >
       fmul binary64 (lit binary64 1.1) (max 50 50)"
    unfolding one bnd g55 using D by simp
  have dA: "distance (stars A ! 1) = 55" and aA: "angle (stars A ! 1) = 0"
    and zA: "size_star (stars A ! 1) = c"
    unfolding sA by simp_all
  have c0: "cosf binary64 0 = 1" and s0': "sinf binary64 0 = 0" by (simp_all add: fl_1)
  have x: "fadd binary64 50 55 = 105" by (simp add: fadd_def fl_105)
  have keepB: "\<not> fmul binary64 (lit binary64 1.1) (max 50 50) < 55"
    unfolding bnd using D by simp
  have y: "fadd binary64 50 (fmul binary64 55 0) = 50" by (simp add: fmul_def fadd_def fl_50)
  have z: "fadd binary64 c (fmul binary64 (lit binary64 0.25) 0) = c"
    by (simp add: fmul_def fadd_def fixc)
  from t have "\<not> fmul binary64 (distance (stars A ! 1)) (fadd binary64 (fmul binary64 2 0) 1) >
              fmul binary64 (lit binary64 1.1) (max 50 50) \<longrightarrow>
            vertices B ! (base_idx s1 + 3 * vsize) =
              fadd binary64 50 (fmul binary64 (fmul binary64 (distance (stars A ! 1)) (fadd binary64 (fmul binary64 2 0) 1))
                           (cosf binary64 (angle (stars A ! 1)))) \<and>
            vertices B ! (base_idx s1 + 3 * vsize + 1) =
              fadd binary64 50 (fmul binary64 (fmul binary64 (distance (stars A ! 1)) (fadd binary64 (fmul binary64 2 0) 1))
                           (sinf binary64 (angle (stars A ! 1)))) \<and>
            vertices B ! (base_idx s1 + 3 * vsize + 2) =
              fadd binary64 (size_star (stars A ! 1)) (fmul binary64 (lit binary64 0.25) 0)"
    by (elim conjE)
  then have "vertices B ! (base_idx s1 + 3 * vsize) = 105 \<and>
      vertices B ! (base_idx s1 + 3 * vsize + 1) = 50 \<and>
      vertices B ! (base_idx s1 + 3 * vsize + 2) = c"
    unfolding dA aA zA one g55 c0 s0' x y z using keepB by blast
  then have vB: "vertices B ! 49 = 105 \<and> vertices B ! 50 = 50 \<and> vertices B ! 51 = c"
    by (simp add: b1 vsize_eq)
  have reset64: "fmul binary64 64 (fadd binary64 (fmul binary64 2 0) 1) >
      fmul binary64 (lit binary64 1.1) (max 50 50)"
    unfolding one bnd g64 using D by simp
  have h: "(0::real) \<le> 1/2" "(1/2::real) \<le> 1 - 1 / 2 ^ 53" by simp_all
  show ?thesis
    using wf l rs reset64 gi k j h vA' sA keepA vB
    unfolding B_def GA_def A_def G_def F_def s0_def s1_def c_def by blast
qed

text \<open>
  C3. An update call computes the bound \<open>1.1 * max x0 y0\<close> once, from the centre read in
  that call, and runs every star against the same bound. Every star whose grown distance
  does not exceed it has the same triple written at all four of its stride-spaced slots
  in that call: its centre \<open>(x0 + d cos a, y0 + d sin a)\<close> and its size, computed (with
  the rounding of each operation) from the grown state the star ends the call with.
\<close>

theorem update_writes_triple_to_all_slots:
  assumes wf: "wf_field sf" and i: "i < length (stars sf)"
    and keep: "\<not> fmul ar (distance (stars sf ! i)) (fadd ar (fmul ar 2 nap) 1) >
                  fmul ar (lit ar 1.1) (max x0 y0)"
    and k: "k < 4"
  shows "update_glsl_fl ar nap (x0, y0) sf g =
           fold (update_star_fl ar nap x0 y0 (fmul ar (lit ar 1.1) (max x0 y0)))
             [0 ..< length (stars sf)] (sf, g) \<and>
         base_idx (stars sf ! i) = 4 * i * vsize \<and>
         stars (fst (update_glsl_fl ar nap (x0, y0) sf g)) ! i =
           (stars sf ! i)\<lparr>distance := fmul ar (distance (stars sf ! i)) (fadd ar (fmul ar 2 nap) 1),
                           size_star := fadd ar (size_star (stars sf ! i)) (fmul ar (lit ar 0.25) nap)\<rparr> \<and>
         vertices (fst (update_glsl_fl ar nap (x0, y0) sf g)) ! (base_idx (stars sf ! i) + k * vsize) =
           fadd ar x0 (fmul ar (distance (stars (fst (update_glsl_fl ar nap (x0, y0) sf g)) ! i))
                        (cosf ar (angle (stars (fst (update_glsl_fl ar nap (x0, y0) sf g)) ! i)))) \<and>
         vertices (fst (update_glsl_fl ar nap (x0, y0) sf g)) ! (base_idx (stars sf ! i) + k * vsize + 1) =
           fadd ar y0 (fmul ar (distance (stars (fst (update_glsl_fl ar nap (x0, y0) sf g)) ! i))
                        (sinf ar (angle (stars (fst (update_glsl_fl ar nap (x0, y0) sf g)) ! i)))) \<and>
         vertices (fst (update_glsl_fl ar nap (x0, y0) sf g)) ! (base_idx (stars sf ! i) + k * vsize + 2) =
           size_star (stars (fst (update_glsl_fl ar nap (x0, y0) sf g)) ! i)"
proof -
  let ?sf' = "fst (update_glsl_fl ar nap (x0, y0) sf g)"
  have d: "distance (grow_fl ar nap (stars sf ! i)) =
      fmul ar (distance (stars sf ! i)) (fadd ar (fmul ar 2 nap) 1)"
    by (simp add: grow_eq_fl)
  have keep': "\<not> distance (grow_fl ar nap (stars sf ! i)) > fmul ar (lit ar 1.1) (max x0 y0)"
    using keep by (simp add: d)
  have st: "stars ?sf' ! i = grow_fl ar nap (stars sf ! i)"
    using update_glsl_star_fl(1) [OF wf i, where ar=ar and nap=nap and ?x0.0=x0 and ?y0.0=y0 and g=g]
      keep' by (simp only: if_False)
  note slot = update_glsl_keep_frame_fl [OF wf i keep' k, where g=g]
  have a: "angle (grow_fl ar nap (stars sf ! i)) = angle (stars sf ! i)" by (simp add: grow_eq_fl)
  show ?thesis
  proof (intro conjI)
    show "update_glsl_fl ar nap (x0, y0) sf g =
           fold (update_star_fl ar nap x0 y0 (fmul ar (lit ar 1.1) (max x0 y0)))
             [0 ..< length (stars sf)] (sf, g)"
      by (simp add: update_glsl_fl_def Let_def)
    show "base_idx (stars sf ! i) = 4 * i * vsize"
      using wf_base [OF wf i] by (simp add: vsize_eq)
    show "stars ?sf' ! i =
           (stars sf ! i)\<lparr>distance := fmul ar (distance (stars sf ! i)) (fadd ar (fmul ar 2 nap) 1),
                           size_star := fadd ar (size_star (stars sf ! i)) (fmul ar (lit ar 0.25) nap)\<rparr>"
      by (simp add: st grow_eq_fl)
    show "vertices ?sf' ! (base_idx (stars sf ! i) + k * vsize) =
           fadd ar x0 (fmul ar (distance (stars ?sf' ! i)) (cosf ar (angle (stars ?sf' ! i))))"
      using slot [of 0] by (simp add: st a)
    show "vertices ?sf' ! (base_idx (stars sf ! i) + k * vsize + 1) =
           fadd ar y0 (fmul ar (distance (stars ?sf' ! i)) (sinf ar (angle (stars ?sf' ! i))))"
      using slot [of 1] by (simp add: st a)
    show "vertices ?sf' ! (base_idx (stars sf ! i) + k * vsize + 2) = size_star (stars ?sf' ! i)"
      using slot [of 2] by (simp add: st)
  qed
qed

theorem update_writes_triple_to_all_slots_witness:
  "wf_field \<lparr>indices = [0, 1, 2, 2, 2, 3, 0], vertices = quad,
      stars = [\<lparr>angle = 0, distance = 55 + 1 / 2 ^ 47, size_star = 1/4, base_idx = 0\<rparr>]\<rparr> \<and>
   (0::nat) < length (stars \<lparr>indices = [0, 1, 2, 2, 2, 3, 0], vertices = quad,
      stars = [\<lparr>angle = 0, distance = 55 + 1 / 2 ^ 47, size_star = 1/4, base_idx = 0\<rparr>]\<rparr>) \<and>
   \<not> fmul binary64 (55 + 1 / 2 ^ 47) (fadd binary64 (fmul binary64 2 0) 1) >
       fmul binary64 (lit binary64 1.1) (max 50 50) \<and>
   (3::nat) < 4 \<and>
   vertices (fst (update_glsl_fl binary64 0 (50, 50)
      \<lparr>indices = [0, 1, 2, 2, 2, 3, 0], vertices = quad,
        stars = [\<lparr>angle = 0, distance = 55 + 1 / 2 ^ 47, size_star = 1/4, base_idx = 0\<rparr>]\<rparr>
      (sconst 0))) ! 21 = 105 \<and>
   vertices (fst (update_glsl_fl binary64 0 (50, 50)
      \<lparr>indices = [0, 1, 2, 2, 2, 3, 0], vertices = quad,
        stars = [\<lparr>angle = 0, distance = 55 + 1 / 2 ^ 47, size_star = 1/4, base_idx = 0\<rparr>]\<rparr>
      (sconst 0))) ! 22 = 50 \<and>
   vertices (fst (update_glsl_fl binary64 0 (50, 50)
      \<lparr>indices = [0, 1, 2, 2, 2, 3, 0], vertices = quad,
        stars = [\<lparr>angle = 0, distance = 55 + 1 / 2 ^ 47, size_star = 1/4, base_idx = 0\<rparr>]\<rparr>
      (sconst 0))) ! 23 = 1/4"
proof -
  define D :: real where "D = 55 + 1 / 2 ^ 47"
  define st where "st = \<lparr>angle = 0, distance = D, size_star = 1/4, base_idx = 0\<rparr>"
  define F where "F = \<lparr>indices = [0, 1, 2, 2, 2, 3, 0], vertices = quad, stars = [st]\<rparr>"
  define U where "U = fst (update_glsl_fl binary64 0 (50, 50) F (sconst 0))"
  have wf: "wf_field F" unfolding F_def st_def by (rule wf_field_demo1)
  have l: "(0::nat) < length (stars F)" by (simp add: F_def)
  have s0: "stars F ! 0 = st" by (simp add: F_def)
  have fD: "fl D = D" unfolding D_def by (rule fl_bound_50_fix)
  have m: "max (50::real) 50 = 50" by simp
  have bnd: "fmul binary64 (lit binary64 1.1) (max 50 50) = D"
    unfolding fmul_def lit_def binary64_sel m fl_c11 D_def by (rule fl_bound_50)
  have gr: "fmul binary64 D (fadd binary64 (fmul binary64 2 0) 1) = D"
    by (simp add: fmul_def fadd_def fl_1 fD)
  have sz: "fadd binary64 (1/4) (fmul binary64 (lit binary64 0.25) 0) = 1/4"
    unfolding fmul_def fadd_def lit_def binary64_sel by (simp add: fl_quarter)
  have dst: "distance st = D" and sst: "size_star st = 1/4" and ast: "angle st = 0"
    and bst: "base_idx st = 0"
    by (simp_all add: st_def)
  have keep: "\<not> fmul binary64 (distance (stars F ! 0)) (fadd binary64 (fmul binary64 2 0) 1) >
       fmul binary64 (lit binary64 1.1) (max 50 50)"
    unfolding s0 dst gr bnd by simp
  have k: "(3::nat) < 4" by simp
  have c0: "cosf binary64 0 = 1" by (simp add: fl_1)
  have m1: "fmul binary64 D 1 = D" by (simp add: fmul_def fD)
  have a50: "fadd binary64 50 D = 105"
    unfolding fadd_def binary64_sel D_def by (rule fl_bound_50_plus_50)
  have x: "fadd binary64 50 (fmul binary64 D (cosf binary64 0)) = 105"
    unfolding c0 m1 by (rule a50)
  have y: "fadd binary64 50 (fmul binary64 D (sinf binary64 0)) = 50"
    unfolding fmul_def fadd_def binary64_sel by (simp add: fl_50)
  note t = update_writes_triple_to_all_slots [OF wf l keep k, where g="sconst 0",
      folded U_def, unfolded s0 dst sst gr sz, THEN conjunct2, THEN conjunct2]
  from t have su: "stars U ! 0 = st\<lparr>distance := D, size_star := 1/4\<rparr>" by (elim conjE)
  then have su': "stars U ! 0 = st" by (simp add: st_def)
  from t have v: "vertices U ! (base_idx st + 3 * vsize) = 105 \<and>
      vertices U ! (base_idx st + 3 * vsize + 1) = 50 \<and>
      vertices U ! (base_idx st + 3 * vsize + 2) = 1/4"
    unfolding su' dst ast sst x y by (elim conjE) (intro conjI)
  then have "vertices U ! 21 = 105 \<and> vertices U ! 22 = 50 \<and> vertices U ! 23 = 1/4"
    by (simp add: bst vsize_eq)
  moreover have "\<not> fmul binary64 D (fadd binary64 (fmul binary64 2 0) 1) >
       fmul binary64 (lit binary64 1.1) (max 50 50)"
    unfolding gr bnd by simp
  ultimately show ?thesis
    using wf l k unfolding U_def F_def st_def D_def by blast
qed

text \<open>
  C4. Whatever the number of update calls, their \<open>nap\<close> values, centres and random
  draws, the vertex list of a constructed field keeps its length \<open>4 * P * vsize\<close>, and
  the four scalars at offsets 3 to 6 of every vertex keep the values the constructor gave
  them: an update call only ever changes scalars at offsets 0, 1 and 2 of a vertex.
\<close>

theorem static_attributes_immutable:
  "length (vertices (fst (run fs (Starfield_init P g)))) = 4 * P * vsize \<and>
   (\<forall>v<4 * P. \<forall>off. 3 \<le> off \<and> off < vsize \<longrightarrow>
      vertices (fst (run fs (Starfield_init P g))) ! (v * vsize + off) =
        vertices (fst (Starfield_init P g)) ! (v * vsize + off)) \<and>
   (wf_field sf \<longrightarrow>
      length (vertices (fst (update_glsl nap c sf g'))) = length (vertices sf) \<and>
      (\<forall>p. 3 \<le> p mod vsize \<longrightarrow>
         vertices (fst (update_glsl nap c sf g')) ! p = vertices sf ! p))"
proof (intro conjI allI impI)
  note r = run_frame [OF wf_field_Starfield_init, of fs P g]
  have "length (vertices (fst (Starfield_init P g))) = 4 * P * vsize"
    by (simp add: Starfield_init_eq length_concat_replicate length_quad vsize_eq)
  then show "length (vertices (fst (run fs (Starfield_init P g)))) = 4 * P * vsize"
    using r by simp
  fix v off
  assume "v < 4 * P" and off: "3 \<le> off \<and> off < vsize"
  then have "3 \<le> (v * vsize + off) mod vsize" by simp
  then have "\<forall>j<length (stars (fst (Starfield_init P g))). \<not> dyn_slot j (v * vsize + off)"
    using static_not_dyn by blast
  then show "vertices (fst (run fs (Starfield_init P g))) ! (v * vsize + off) =
        vertices (fst (Starfield_init P g)) ! (v * vsize + off)"
    using r by blast
next
  assume wf: "wf_field sf"
  show "length (vertices (fst (update_glsl nap c sf g'))) = length (vertices sf)"
    by (rule update_glsl_frame(3) [OF wf])
next
  fix p
  assume wf: "wf_field sf" and "3 \<le> p mod vsize"
  then have "\<forall>j<length (stars sf). \<not> dyn_slot j p" using static_not_dyn by blast
  then show "vertices (fst (update_glsl nap c sf g')) ! p = vertices sf ! p"
    by (rule update_glsl_frame(6) [OF wf])
qed

theorem static_attributes_immutable_witness:
  "(2::nat) < 4 * 1 \<and> (3::nat) \<le> 3 \<and> 3 < vsize \<and>
   length (vertices (fst (run [(1/2, (50, 50)), (0, (200, 100))] (Starfield_init 1 (sconst (1/2)))))) = 28 \<and>
   vertices (fst (run [(1/2, (50, 50)), (0, (200, 100))] (Starfield_init 1 (sconst (1/2))))) ! 17 = 24 \<and>
   wf_field (fst (Starfield_init 1 (sconst (1/2)))) \<and> (3::nat) \<le> 24 mod vsize \<and>
   vertices (fst (update_glsl (1/2) (50, 50) (fst (Starfield_init 1 (sconst (1/2)))) (sconst (1/2)))) ! 24 = -24"
proof -
  define R where "R = fst (run [(1/2, (50, 50)), (0, (200, 100))] (Starfield_init 1 (sconst (1/2))))"
  define F where "F = fst (Starfield_init 1 (sconst (1/2)))"
  define U where "U = fst (update_glsl (1/2) (50, 50) F (sconst (1/2)))"
  note t = static_attributes_immutable [where fs="[(1/2, (50, 50)), (0, (200, 100))]" and P=1
        and g="sconst (1/2)" and sf=F and nap="1/2" and c="(50, 50)" and g'="sconst (1/2)",
        folded R_def, folded F_def, folded U_def]
  have wf: "wf_field F" unfolding F_def by (rule wf_field_Starfield_init)
  have v: "vertices F = quad" by (simp add: F_def Starfield_init_1)
  have h: "(2::nat) < 4 * 1" "(3::nat) \<le> 3" "3 < vsize" "(3::nat) \<le> 24 mod vsize"
    by (simp_all add: vsize_eq)
  from t have l: "length (vertices R) = 28" by (simp add: vsize_eq)
  from t have "\<forall>v<4 * 1. \<forall>off. 3 \<le> off \<and> off < vsize \<longrightarrow>
      vertices R ! (v * vsize + off) = vertices F ! (v * vsize + off)"
    by (elim conjE)
  from this [rule_format, of 2 3] h have a: "vertices R ! 17 = 24"
    by (simp add: vsize_eq v quad_def)
  from t wf have "\<forall>p. 3 \<le> p mod vsize \<longrightarrow> vertices U ! p = vertices F ! p" by blast
  from this [rule_format, of 24] h have b: "vertices U ! 24 = -24"
    by (simp add: v quad_def)
  show ?thesis using h l a wf b unfolding R_def F_def U_def by blast
qed

text \<open>
  C5. The index list built by the constructor for \<open>P\<close> stars is the concatenation, for
  \<open>i = 0, \<dots>, P - 1\<close> with base \<open>4 * i\<close>, of the seven indices base, base + 1,
  base + 2, base + 2, base + 2, base + 3, base. So it has length \<open>7 * P\<close>, every entry is
  below \<open>4 * P\<close>, no update (and no run of updates) changes it, and for \<open>P = 2\<close> it is
  \<open>[0,1,2,2,2,3,0,4,5,6,6,6,7,4]\<close>.
\<close>

theorem index_buffer_topology:
  "indices (fst (Starfield_init P g)) =
     concat (map (\<lambda>i. [4 * i, 4 * i + 1, 4 * i + 2, 4 * i + 2, 4 * i + 2, 4 * i + 3, 4 * i]) [0 ..< P]) \<and>
   length (indices (fst (Starfield_init P g))) = 7 * P \<and>
   (\<forall>v \<in> set (indices (fst (Starfield_init P g))). v < 4 * P) \<and>
   indices (fst (update_glsl nap c (fst (Starfield_init P g)) (snd (Starfield_init P g)))) =
     indices (fst (Starfield_init P g)) \<and>
   indices (fst (run fs (Starfield_init P g))) = indices (fst (Starfield_init P g)) \<and>
   indices (fst (Starfield_init 2 g)) = [0, 1, 2, 2, 2, 3, 0, 4, 5, 6, 6, 6, 7, 4]"
proof (intro conjI)
  show "indices (fst (Starfield_init P g)) =
     concat (map (\<lambda>i. [4 * i, 4 * i + 1, 4 * i + 2, 4 * i + 2, 4 * i + 2, 4 * i + 3, 4 * i]) [0 ..< P])"
    by (simp add: Starfield_init_eq)
  show "length (indices (fst (Starfield_init P g))) = 7 * P"
    by (simp add: Starfield_init_eq length_concat comp_def sum_list_triv)
  show "\<forall>v \<in> set (indices (fst (Starfield_init P g))). v < 4 * P"
    by (auto simp add: Starfield_init_eq)
  show "indices (fst (update_glsl nap c (fst (Starfield_init P g)) (snd (Starfield_init P g)))) =
     indices (fst (Starfield_init P g))"
    by (rule update_glsl_frame(4) [OF wf_field_Starfield_init])
  show "indices (fst (run fs (Starfield_init P g))) = indices (fst (Starfield_init P g))"
    using run_frame [OF wf_field_Starfield_init, of fs P g] by simp
  have "[0 ..< 2] = [0, 1::nat]" by code_simp
  then show "indices (fst (Starfield_init 2 g)) = [0, 1, 2, 2, 2, 3, 0, 4, 5, 6, 6, 6, 7, 4]"
    by (simp add: Starfield_init_eq)
qed

theorem index_buffer_topology_witness:
  "indices (fst (Starfield_init 3 (sconst 0))) =
     [0, 1, 2, 2, 2, 3, 0, 4, 5, 6, 6, 6, 7, 4, 8, 9, 10, 10, 10, 11, 8] \<and>
   length (indices (fst (Starfield_init 3 (sconst 0)))) = 21 \<and>
   list_all (\<lambda>v. v < 12) (indices (fst (Starfield_init 3 (sconst 0))))"
proof -
  have u: "[0 ..< 3] = [0, 1, 2::nat]" by code_simp
  show ?thesis
    using index_buffer_topology [of 3 "sconst 0" 0 "(0, 0)" "[]"] by (simp add: u)
qed

text \<open>
  C6. The vertex list built by the constructor for \<open>P\<close> stars has length
  \<open>4 * P * vsize\<close> (the stride \<open>vsize\<close> is 7) and holds, for each star, four vertices whose
  first three scalars are \<open>(0, 0, 1)\<close> and whose last four are the corner and texture
  pairs \<open>(-24,-24; 0,1)\<close>, \<open>(24,-24; 1,1)\<close>, \<open>(24,24; 1,0)\<close>, \<open>(-24,24; 0,0)\<close>, in that order.
\<close>

theorem vertex_buffer_construction:
  "vsize = 7 \<and>
   length (vertices (fst (Starfield_init P g))) = 4 * P * vsize \<and>
   vertices (fst (Starfield_init P g)) =
     concat (replicate P [0, 0, 1, -24, -24, 0, 1,
                          0, 0, 1, 24, -24, 1, 1,
                          0, 0, 1, 24, 24, 1, 0,
                          0, 0, 1, -24, 24, 0, 0]) \<and>
   (\<forall>i<P. \<forall>k<4.
      take vsize (drop ((4 * i + k) * vsize) (vertices (fst (Starfield_init P g)))) =
        [0, 0, 1] @ [[-24, -24, 0, 1], [24, -24, 1, 1], [24, 24, 1, 0], [-24, 24, 0, 0]] ! k)"
proof (intro conjI allI impI)
  show "vsize = 7" by (rule vsize_eq)
  show "length (vertices (fst (Starfield_init P g))) = 4 * P * vsize"
    by (simp add: Starfield_init_eq length_concat_replicate length_quad vsize_eq)
  show "vertices (fst (Starfield_init P g)) =
     concat (replicate P [0, 0, 1, -24, -24, 0, 1,
                          0, 0, 1, 24, -24, 1, 1,
                          0, 0, 1, 24, 24, 1, 0,
                          0, 0, 1, -24, 24, 0, 0])"
    by (simp add: Starfield_init_eq quad_def)
  fix i k :: nat
  assume i: "i < P" and k: "k < 4"
  have "take 7 (drop (7 * k) quad) =
      [0, 0, 1] @ [[-24, -24, 0, 1], [24, -24, 1, 1], [24, 24, 1, 0], [-24, 24, 0, 0]] ! k"
    using less_4_cases [OF k] by (auto simp add: quad_def)
  then show "take vsize (drop ((4 * i + k) * vsize) (vertices (fst (Starfield_init P g)))) =
        [0, 0, 1] @ [[-24, -24, 0, 1], [24, -24, 1, 1], [24, 24, 1, 0], [-24, 24, 0, 0]] ! k"
    by (simp only: Starfield_init_vertex_row [OF i k])
qed

theorem vertex_buffer_construction_witness:
  "length (vertices (fst (Starfield_init 2 (sconst 0)))) = 56 \<and>
   take vsize (drop ((4 * 1 + 2) * vsize) (vertices (fst (Starfield_init 2 (sconst 0))))) =
     [0, 0, 1, 24, 24, 1, 0]"
proof -
  note t = vertex_buffer_construction [of 2 "sconst 0"]
  from t have l: "length (vertices (fst (Starfield_init 2 (sconst 0)))) = 4 * 2 * vsize"
    by (elim conjE)
  from t have r: "\<forall>i<2. \<forall>k<4.
      take vsize (drop ((4 * i + k) * vsize) (vertices (fst (Starfield_init 2 (sconst 0))))) =
        [0, 0, 1] @ [[-24, -24, 0, 1], [24, -24, 1, 1], [24, 24, 1, 0], [-24, 24, 0, 0]] ! k"
    by (elim conjE)
  from r [rule_format, of 1 2] l show ?thesis by (simp add: vsize_eq)
qed

text \<open>
  C7. \<^verbatim>\<open>reset()\<close> sets the angle to \<open>2\<pi>\<close> times the first draw, the distance to
  90 times the second draw plus 10 and the size to 0.05 times the third draw plus 0.05,
  consuming exactly three draws. As stated, with the size in \<open>[0.05, 0.10)\<close>, the claim
  fails in double arithmetic: for the largest draw \<open>1 - 2\<^sup>-\<^sup>5\<^sup>3\<close> the size is exactly the
  double \<open>0.10\<close>.
\<close>

theorem Star_reset_size_reaches_upper_end:
  "(0::real) \<le> 1 - 1 / 2 ^ 53 \<and> (1 - 1 / 2 ^ 53 :: real) < 1 \<and>
   size_star (fst (Star_reset_fl binary64
       \<lparr>angle = 0, distance = 0, size_star = 0, base_idx = 0\<rparr>
       (0 ## 0 ## (1 - 1 / 2 ^ 53) ## sconst 0))) = lit binary64 0.10 \<and>
   \<not> size_star (fst (Star_reset_fl binary64
       \<lparr>angle = 0, distance = 0, size_star = 0, base_idx = 0\<rparr>
       (0 ## 0 ## (1 - 1 / 2 ^ 53) ## sconst 0))) < 0.10"
proof -
  define z where "z = size_star (fst (Star_reset_fl binary64
       \<lparr>angle = 0, distance = 0, size_star = 0, base_idx = 0\<rparr>
       (0 ## 0 ## (1 - 1 / 2 ^ 53) ## sconst 0)))"
  have "z = fadd binary64 (fmul binary64 (lit binary64 0.05) (1 - 1 / 2 ^ 53)) (lit binary64 0.05)"
    unfolding z_def Star_reset_eq_fl by simp
  then have z: "z = 3602879701896397 / 2 ^ 55" by (simp only: reset_size_top_binary64)
  have a: "z = lit binary64 0.10" unfolding z lit_010_binary64 by (rule refl)
  have b: "\<not> z < 0.10" unfolding z by simp
  have c: "(0::real) \<le> 1 - 1 / 2 ^ 53" "(1 - 1 / 2 ^ 53 :: real) < 1" by simp_all
  show ?thesis using a b c unfolding z_def by blast
qed

text \<open>
  C7, amended. \<^verbatim>\<open>reset()\<close> sets the three fields by the three formulas from three
  successive draws and changes nothing else: \<^verbatim>\<open>base_idx\<close> is kept, and when the update
  loop takes the reset branch for a star, the vertex list, the index list and every other
  star are left as they were. For draws of \<^verbatim>\<open>random()\<close> (at most \<open>1 - 2\<^sup>-\<^sup>5\<^sup>3\<close>) the
  angle lies in \<open>[0, 2\<pi>)\<close>, the distance in \<open>[10, 100)\<close> and the size in the closed range
  from the double \<open>0.05\<close> to the double \<open>0.10\<close>; only without rounding is the size
  below \<open>0.10\<close> for every draw below 1.
\<close>

theorem Star_reset_draws:
  "Star_reset_fl ar st g =
     (st\<lparr>angle := fmul ar (fmul ar 2 (mpi ar)) (shd g),
         distance := fadd ar (fmul ar 90 (shd (stl g))) 10,
         size_star := fadd ar (fmul ar (lit ar 0.05) (shd (stl (stl g)))) (lit ar 0.05)\<rparr>,
      stl (stl (stl g))) \<and>
   base_idx (fst (Star_reset_fl ar st g)) = base_idx st \<and>
   ((ar = binary64 \<or> ar = exact) \<and> 0 \<le> shd g \<and> shd g \<le> 1 - 1 / 2 ^ 53 \<longrightarrow>
      0 \<le> angle (fst (Star_reset_fl ar st g)) \<and> angle (fst (Star_reset_fl ar st g)) < 2 * pi) \<and>
   ((ar = binary64 \<or> ar = exact) \<and> 0 \<le> shd (stl g) \<and> shd (stl g) \<le> 1 - 1 / 2 ^ 53 \<longrightarrow>
      10 \<le> distance (fst (Star_reset_fl ar st g)) \<and>
      distance (fst (Star_reset_fl ar st g)) < 100) \<and>
   ((ar = binary64 \<or> ar = exact) \<and> 0 \<le> shd (stl (stl g)) \<and> shd (stl (stl g)) \<le> 1 - 1 / 2 ^ 53 \<longrightarrow>
      0.05 \<le> size_star (fst (Star_reset_fl ar st g)) \<and>
      lit ar 0.05 \<le> size_star (fst (Star_reset_fl ar st g)) \<and>
      size_star (fst (Star_reset_fl ar st g)) \<le> lit ar 0.10) \<and>
   (0 \<le> shd (stl (stl g)) \<and> shd (stl (stl g)) < 1 \<longrightarrow>
      size_star (fst (Star_reset_fl exact st g)) < 0.10) \<and>
   (distance (grow_fl ar nap (stars sf ! i)) > m \<longrightarrow>
      fst (update_star_fl ar nap x0 y0 m i (sf, g)) =
        sf\<lparr>stars := (stars sf)[i := fst (Star_reset_fl ar (grow_fl ar nap (stars sf ! i)) g)]\<rparr> \<and>
      vertices (fst (update_star_fl ar nap x0 y0 m i (sf, g))) = vertices sf \<and>
      indices (fst (update_star_fl ar nap x0 y0 m i (sf, g))) = indices sf \<and>
      snd (update_star_fl ar nap x0 y0 m i (sf, g)) = stl (stl (stl g)))"
proof (intro conjI impI)
  show "Star_reset_fl ar st g =
     (st\<lparr>angle := fmul ar (fmul ar 2 (mpi ar)) (shd g),
         distance := fadd ar (fmul ar 90 (shd (stl g))) 10,
         size_star := fadd ar (fmul ar (lit ar 0.05) (shd (stl (stl g)))) (lit ar 0.05)\<rparr>,
      stl (stl (stl g)))"
    by (rule Star_reset_eq_fl)
  show "base_idx (fst (Star_reset_fl ar st g)) = base_idx st" by simp
next
  assume h: "(ar = binary64 \<or> ar = exact) \<and> 0 \<le> shd g \<and> shd g \<le> 1 - 1 / 2 ^ 53"
  then have u0: "0 \<le> shd g" and u1: "shd g \<le> 1 - 1 / 2 ^ 53" by simp_all
  have u2: "shd g < 1" using u1 by (smt (verit) zero_less_power divide_pos_pos)
  have a: "\<And>ar. angle (fst (Star_reset_fl ar st g)) = fmul ar (fmul ar 2 (mpi ar)) (shd g)"
    by (simp add: Star_reset_eq_fl)
  from h consider "ar = binary64" | "ar = exact" by blast
  then have "0 \<le> angle (fst (Star_reset_fl ar st g)) \<and> angle (fst (Star_reset_fl ar st g)) < 2 * pi"
  proof cases
    case 1
    show ?thesis unfolding a 1 using reset_angle_binary64(1,3) [OF u0 u1] by blast
  next
    case 2
    show ?thesis unfolding a 2 using reset_ranges_exact_open(1,2) [OF u0 u2] by blast
  qed
  then show "0 \<le> angle (fst (Star_reset_fl ar st g))"
    and "angle (fst (Star_reset_fl ar st g)) < 2 * pi" by simp_all
next
  assume h: "(ar = binary64 \<or> ar = exact) \<and> 0 \<le> shd (stl g) \<and> shd (stl g) \<le> 1 - 1 / 2 ^ 53"
  then have u0: "0 \<le> shd (stl g)" and u1: "shd (stl g) \<le> 1 - 1 / 2 ^ 53" by simp_all
  have u2: "shd (stl g) < 1" using u1 by (smt (verit) zero_less_power divide_pos_pos)
  have a: "\<And>ar. distance (fst (Star_reset_fl ar st g)) = fadd ar (fmul ar 90 (shd (stl g))) 10"
    by (simp add: Star_reset_eq_fl)
  from h consider "ar = binary64" | "ar = exact" by blast
  then have "10 \<le> distance (fst (Star_reset_fl ar st g)) \<and>
      distance (fst (Star_reset_fl ar st g)) < 100"
  proof cases
    case 1
    show ?thesis unfolding a 1 using reset_distance_binary64 [OF u0 u1] by blast
  next
    case 2
    show ?thesis unfolding a 2 using reset_ranges_exact_open(3,4) [OF u0 u2] by blast
  qed
  then show "10 \<le> distance (fst (Star_reset_fl ar st g))"
    and "distance (fst (Star_reset_fl ar st g)) < 100" by simp_all
next
  assume h: "(ar = binary64 \<or> ar = exact) \<and> 0 \<le> shd (stl (stl g)) \<and>
      shd (stl (stl g)) \<le> 1 - 1 / 2 ^ 53"
  then have u0: "0 \<le> shd (stl (stl g))" and u1: "shd (stl (stl g)) \<le> 1 - 1 / 2 ^ 53"
    by simp_all
  have u2: "shd (stl (stl g)) < 1" using u1 by (smt (verit) zero_less_power divide_pos_pos)
  have a: "\<And>ar. size_star (fst (Star_reset_fl ar st g)) =
      fadd ar (fmul ar (lit ar 0.05) (shd (stl (stl g)))) (lit ar 0.05)"
    by (simp add: Star_reset_eq_fl)
  from h consider "ar = binary64" | "ar = exact" by blast
  then have "0.05 \<le> size_star (fst (Star_reset_fl ar st g)) \<and>
      lit ar 0.05 \<le> size_star (fst (Star_reset_fl ar st g)) \<and>
      size_star (fst (Star_reset_fl ar st g)) \<le> lit ar 0.10"
  proof cases
    case 1
    show ?thesis unfolding a 1 using reset_size_binary64 [OF u0 u1] by blast
  next
    case 2
    have "lit exact 0.05 = 0.05" "lit exact 0.10 = 0.10" by (simp_all add: lit_def)
    then show ?thesis
      unfolding a 2 using reset_ranges_exact_open(5,6) [OF u0 u2] by simp
  qed
  then show "0.05 \<le> size_star (fst (Star_reset_fl ar st g))"
    and "lit ar 0.05 \<le> size_star (fst (Star_reset_fl ar st g))"
    and "size_star (fst (Star_reset_fl ar st g)) \<le> lit ar 0.10" by simp_all
next
  assume h: "0 \<le> shd (stl (stl g)) \<and> shd (stl (stl g)) < 1"
  have a: "size_star (fst (Star_reset_fl exact st g)) =
      fadd exact (fmul exact (lit exact 0.05) (shd (stl (stl g)))) (lit exact 0.05)"
    by (simp add: Star_reset_eq_fl)
  show "size_star (fst (Star_reset_fl exact st g)) < 0.10"
    unfolding a using reset_ranges_exact_open(6) h by blast
next
  assume r: "distance (grow_fl ar nap (stars sf ! i)) > m"
  show "fst (update_star_fl ar nap x0 y0 m i (sf, g)) =
        sf\<lparr>stars := (stars sf)[i := fst (Star_reset_fl ar (grow_fl ar nap (stars sf ! i)) g)]\<rparr>"
    by (simp add: update_star_reset_fl [OF r])
  show "vertices (fst (update_star_fl ar nap x0 y0 m i (sf, g))) = vertices sf"
    by (simp add: update_star_reset_fl [OF r])
  show "indices (fst (update_star_fl ar nap x0 y0 m i (sf, g))) = indices sf"
    by (simp add: update_star_reset_fl [OF r])
  show "snd (update_star_fl ar nap x0 y0 m i (sf, g)) = stl (stl (stl g))"
    by (simp add: update_star_reset_fl [OF r] Star_reset_eq_fl)
qed

theorem Star_reset_draws_witness:
  "Star_reset_fl binary64 \<lparr>angle = 0, distance = 64, size_star = 1/4, base_idx = 0\<rparr>
       (0 ## 1/2 ## (1 - 1 / 2 ^ 53) ## sconst 0) =
     (\<lparr>angle = 0, distance = 55, size_star = 3602879701896397 / 2 ^ 55, base_idx = 0\<rparr>,
      sconst 0) \<and>
   (0::real) \<le> 1/2 \<and> (1/2::real) \<le> 1 - 1 / 2 ^ 53 \<and>
   (0::real) \<le> 1 - 1 / 2 ^ 53 \<and>
   10 \<le> distance (fst (Star_reset_fl binary64
       \<lparr>angle = 0, distance = 64, size_star = 1/4, base_idx = 0\<rparr>
       (0 ## 1/2 ## (1 - 1 / 2 ^ 53) ## sconst 0))) \<and>
   distance (fst (Star_reset_fl binary64
       \<lparr>angle = 0, distance = 64, size_star = 1/4, base_idx = 0\<rparr>
       (0 ## 1/2 ## (1 - 1 / 2 ^ 53) ## sconst 0))) < 100 \<and>
   angle (fst (Star_reset_fl binary64
       \<lparr>angle = 0, distance = 64, size_star = 1/4, base_idx = 0\<rparr>
       (0 ## 1/2 ## (1 - 1 / 2 ^ 53) ## sconst 0))) < 2 * pi \<and>
   0.05 \<le> size_star (fst (Star_reset_fl binary64
       \<lparr>angle = 0, distance = 64, size_star = 1/4, base_idx = 0\<rparr>
       (0 ## 1/2 ## (1 - 1 / 2 ^ 53) ## sconst 0))) \<and>
   size_star (fst (Star_reset_fl binary64
       \<lparr>angle = 0, distance = 64, size_star = 1/4, base_idx = 0\<rparr>
       (0 ## 1/2 ## (1 - 1 / 2 ^ 53) ## sconst 0))) \<le> lit binary64 0.10 \<and>
   lit binary64 0.10 = 3602879701896397 / 2 ^ 55 \<and>
   distance (grow_fl binary64 0 (stars
       \<lparr>indices = [0, 1, 2, 2, 2, 3, 0], vertices = quad,
         stars = [\<lparr>angle = 0, distance = 64, size_star = 1/4, base_idx = 0\<rparr>]\<rparr> ! 0)) > 55 \<and>
   fst (update_star_fl binary64 0 50 50 55 0
       (\<lparr>indices = [0, 1, 2, 2, 2, 3, 0], vertices = quad,
         stars = [\<lparr>angle = 0, distance = 64, size_star = 1/4, base_idx = 0\<rparr>]\<rparr>,
        0 ## 1/2 ## (1 - 1 / 2 ^ 53) ## sconst 0)) =
     \<lparr>indices = [0, 1, 2, 2, 2, 3, 0], vertices = quad,
       stars = [\<lparr>angle = 0, distance = 55, size_star = 3602879701896397 / 2 ^ 55,
                 base_idx = 0\<rparr>]\<rparr> \<and>
   snd (update_star_fl binary64 0 50 50 55 0
       (\<lparr>indices = [0, 1, 2, 2, 2, 3, 0], vertices = quad,
         stars = [\<lparr>angle = 0, distance = 64, size_star = 1/4, base_idx = 0\<rparr>]\<rparr>,
        0 ## 1/2 ## (1 - 1 / 2 ^ 53) ## sconst 0)) = sconst 0"
proof -
  define c :: real where "c = 3602879701896397 / 2 ^ 55"
  define u :: real where "u = 1 - 1 / 2 ^ 53"
  define s where "s = \<lparr>angle = 0, distance = 64, size_star = 1/4, base_idx = 0\<rparr>"
  define F where "F = \<lparr>indices = [0, 1, 2, 2, 2, 3, 0], vertices = quad, stars = [s]\<rparr>"
  define G :: rng where "G = 0 ## 1/2 ## u ## sconst 0"
  have g0: "shd G = 0" and g1: "shd (stl G) = 1/2" and g2: "shd (stl (stl G)) = u"
    and g3: "stl (stl (stl G)) = sconst 0" by (simp_all add: G_def)
  have f0: "stars F ! 0 = s" by (simp add: F_def)
  have ra: "fmul binary64 (fmul binary64 2 (mpi binary64)) 0 = 0" by (simp add: fmul_def)
  have rd: "fadd binary64 (fmul binary64 90 (1/2)) 10 = 55"
    by (simp add: fmul_def fadd_def fl_45 fl_55)
  have rz: "fadd binary64 (fmul binary64 (lit binary64 0.05) u) (lit binary64 0.05) = c"
    unfolding u_def c_def by (rule reset_size_top_binary64)
  have l10: "lit binary64 0.10 = c" unfolding c_def by (rule lit_010_binary64)
  have one: "fadd binary64 (fmul binary64 2 0) 1 = 1" by (simp add: fmul_def fadd_def fl_1)
  have g64: "fmul binary64 64 1 = 64" by (simp add: fmul_def fl_64)
  have gq: "\<And>q. fadd binary64 (1/4) (fmul binary64 q 0) = 1/4"
    by (simp add: fmul_def fadd_def fl_quarter)
  have gr: "grow_fl binary64 0 s = s"
    unfolding grow_eq_fl by (simp add: s_def one g64 gq)
  have r: "distance (grow_fl binary64 0 (stars F ! 0)) > 55" unfolding f0 gr by (simp add: s_def)
  have h1: "(binary64 = binary64 \<or> binary64 = exact) \<and> 0 \<le> shd G \<and> shd G \<le> 1 - 1 / 2 ^ 53"
    unfolding g0 by simp
  have h2: "(binary64 = binary64 \<or> binary64 = exact) \<and> 0 \<le> shd (stl G) \<and>
      shd (stl G) \<le> 1 - 1 / 2 ^ 53"
    unfolding g1 by simp
  have h3: "(binary64 = binary64 \<or> binary64 = exact) \<and> 0 \<le> shd (stl (stl G)) \<and>
      shd (stl (stl G)) \<le> 1 - 1 / 2 ^ 53"
    unfolding g2 u_def by simp
  note t = Star_reset_draws [where ar=binary64 and st=s and g=G and nap=0 and sf=F and i=0
      and m=55 and ?x0.0=50 and ?y0.0=50]
  from t have e: "Star_reset_fl binary64 s G =
      (\<lparr>angle = 0, distance = 55, size_star = c, base_idx = 0\<rparr>, sconst 0)"
    unfolding g0 g1 g2 g3 ra rd rz by (simp add: s_def)
  from t h1 have a: "angle (fst (Star_reset_fl binary64 s G)) < 2 * pi" by blast
  from t h2 have d: "10 \<le> distance (fst (Star_reset_fl binary64 s G))"
    "distance (fst (Star_reset_fl binary64 s G)) < 100" by blast+
  from t h3 have z: "0.05 \<le> size_star (fst (Star_reset_fl binary64 s G))"
    "size_star (fst (Star_reset_fl binary64 s G)) \<le> lit binary64 0.10" by blast+
  from t r have w: "fst (update_star_fl binary64 0 50 50 55 0 (F, G)) =
        F\<lparr>stars := (stars F)[0 := fst (Star_reset_fl binary64 (grow_fl binary64 0 (stars F ! 0)) G)]\<rparr>"
    and wg: "snd (update_star_fl binary64 0 50 50 55 0 (F, G)) = stl (stl (stl G))" by blast+
  have w': "fst (update_star_fl binary64 0 50 50 55 0 (F, G)) =
      \<lparr>indices = [0, 1, 2, 2, 2, 3, 0], vertices = quad,
        stars = [\<lparr>angle = 0, distance = 55, size_star = c, base_idx = 0\<rparr>]\<rparr>"
    unfolding w f0 gr e by (simp add: F_def)
  have wg': "snd (update_star_fl binary64 0 50 50 55 0 (F, G)) = sconst 0"
    unfolding wg g3 by (rule refl)
  have n: "(0::real) \<le> 1/2" "(1/2::real) \<le> 1 - 1 / 2 ^ 53" "(0::real) \<le> 1 - 1 / 2 ^ 53"
    by simp_all
  show ?thesis
    using e n d a z l10 r w' wg'
    unfolding c_def u_def s_def F_def G_def by blast
qed

text \<open>
  C8. The centre a star computes from the origin \<open>(x0, y0)\<close> is exactly
  \<open>(x0 + distance * cos angle, y0 + distance * sin angle)\<close>: these are the two values
  \<^verbatim>\<open>Star.update\<close> puts in front of the size at each of the star's four slots. The
  computation changes no star and no index, keeps the length of the vertex list, and the
  only vertex positions whose value can differ afterwards are the first three scalars of
  the star's own four vertices. For angle 0, distance 10 and origin \<open>(100, 100)\<close> the
  centre is \<open>(110, 100)\<close>.
\<close>

theorem Star_update_writes_center:
  assumes blk: "base_idx st + 4 * vsize \<le> length (vertices sf)" and k: "k < 4"
  shows "vertices (Star_update st x0 y0 sf) ! (base_idx st + k * vsize) =
           x0 + distance st * cos (angle st) \<and>
         vertices (Star_update st x0 y0 sf) ! (base_idx st + k * vsize + 1) =
           y0 + distance st * sin (angle st) \<and>
         stars (Star_update st x0 y0 sf) = stars sf \<and>
         indices (Star_update st x0 y0 sf) = indices sf \<and>
         length (vertices (Star_update st x0 y0 sf)) = length (vertices sf) \<and>
         (\<forall>p. p < base_idx st \<or> base_idx st + 4 * vsize \<le> p \<or> 3 \<le> (p - base_idx st) mod vsize \<longrightarrow>
              vertices (Star_update st x0 y0 sf) ! p = vertices sf ! p) \<and>
         (angle st = 0 \<and> distance st = 10 \<longrightarrow>
            vertices (Star_update st 100 100 sf) ! (base_idx st + k * vsize) = 110 \<and>
            vertices (Star_update st 100 100 sf) ! (base_idx st + k * vsize + 1) = 100)"
proof -
  have b: "base_idx st + 28 \<le> length (vertices sf)" using blk by (simp add: vsize_eq)
  have x: "vertices (Star_update st x0 y0 sf) ! (base_idx st + k * vsize) =
           x0 + distance st * cos (angle st)" for x0 y0
    using less_4_cases [OF k] by (auto simp add: Star_update_nth [OF b] vsize_eq)
  have y: "vertices (Star_update st x0 y0 sf) ! (base_idx st + k * vsize + 1) =
           y0 + distance st * sin (angle st)" for x0 y0
    using less_4_cases [OF k] by (auto simp add: Star_update_nth [OF b] vsize_eq)
  have o: "vertices (Star_update st x0 y0 sf) ! p = vertices sf ! p"
    if "p < base_idx st \<or> base_idx st + 4 * vsize \<le> p \<or> 3 \<le> (p - base_idx st) mod vsize" for p
    using that by (auto simp add: Star_update_nth [OF b] vsize_eq)
  have c: "vertices (Star_update st 100 100 sf) ! (base_idx st + k * vsize) = 110 \<and>
           vertices (Star_update st 100 100 sf) ! (base_idx st + k * vsize + 1) = 100"
    if "angle st = 0 \<and> distance st = 10"
    using that x [of 100 100] y [of 100 100] by simp
  show ?thesis
    using x [of x0 y0] y [of x0 y0] o c by (simp add: Star_update_length [OF b])
qed

theorem Star_update_writes_center_witness:
  "base_idx (stars (fst (Starfield_init 1 (sconst 0))) ! 0) + 4 * vsize
     \<le> length (vertices (fst (Starfield_init 1 (sconst 0)))) \<and>
   (2::nat) < 4 \<and>
   angle (stars (fst (Starfield_init 1 (sconst 0))) ! 0) = 0 \<and>
   distance (stars (fst (Starfield_init 1 (sconst 0))) ! 0) = 10 \<and>
   vertices (Star_update (stars (fst (Starfield_init 1 (sconst 0))) ! 0) 100 100
               (fst (Starfield_init 1 (sconst 0)))) ! 14 = 110 \<and>
   vertices (Star_update (stars (fst (Starfield_init 1 (sconst 0))) ! 0) 100 100
               (fst (Starfield_init 1 (sconst 0)))) ! 15 = 100 \<and>
   vertices (Star_update (stars (fst (Starfield_init 1 (sconst 0))) ! 0) 100 100
               (fst (Starfield_init 1 (sconst 0)))) ! 17 = 24"
proof -
  define F where "F = fst (Starfield_init 1 (sconst 0))"
  define st where "st = stars F ! 0"
  have f: "F = \<lparr>indices = [0, 1, 2, 2, 2, 3, 0], vertices = quad,
       stars = [\<lparr>angle = 0, distance = 10, size_star = 1/20, base_idx = 0\<rparr>]\<rparr>"
    by (simp add: F_def Starfield_init_zero)
  have s: "st = \<lparr>angle = 0, distance = 10, size_star = 1/20, base_idx = 0\<rparr>"
    by (simp add: st_def f)
  have blk: "base_idx st + 4 * vsize \<le> length (vertices F)"
    by (simp add: s f length_quad vsize_eq)
  have k: "(2::nat) < 4" by simp
  note t = Star_update_writes_center [OF blk k, where ?x0.0=100 and ?y0.0=100]
  have a: "angle st = 0" "distance st = 10" by (simp_all add: s)
  from t a have "vertices (Star_update st 100 100 F) ! (base_idx st + 2 * vsize) = 110"
    and "vertices (Star_update st 100 100 F) ! (base_idx st + 2 * vsize + 1) = 100"
    by blast+
  then have v: "vertices (Star_update st 100 100 F) ! 14 = 110"
      "vertices (Star_update st 100 100 F) ! 15 = 100"
    by (simp_all add: s vsize_eq)
  from t have "\<forall>p. p < base_idx st \<or> base_idx st + 4 * vsize \<le> p \<or> 3 \<le> (p - base_idx st) mod vsize \<longrightarrow>
              vertices (Star_update st 100 100 F) ! p = vertices F ! p"
    by blast
  then have "3 \<le> (17 - base_idx st) mod vsize \<longrightarrow>
      vertices (Star_update st 100 100 F) ! 17 = vertices F ! 17"
    by blast
  then have u: "vertices (Star_update st 100 100 F) ! 17 = 24"
    by (simp add: s vsize_eq f quad_def)
  show ?thesis using blk k a v u unfolding st_def F_def by blast
qed

text \<open>
  C9. A field with one star, whose state is forced to angle \<open>\<pi>/2\<close>, distance 40 and
  size 0.1, updated once with \<open>nap = 0\<close> and centre \<open>(50, 50)\<close>, holds the triple
  \<open>(50, 90, 0.1)\<close> at all four vertex slots of the star (the static scalars are the
  constructor's).
\<close>

theorem end_to_end_scenario:
  "vertices (fst (update_glsl 0 (50, 50)
      ((fst (Starfield_init 1 g))
         \<lparr>stars := (stars (fst (Starfield_init 1 g)))
            [0 := (stars (fst (Starfield_init 1 g)) ! 0)
                    \<lparr>angle := pi / 2, distance := 40, size_star := 0.1\<rparr>]\<rparr>) g')) =
     [50, 90, 0.1, -24, -24, 0, 1,
      50, 90, 0.1, 24, -24, 1, 1,
      50, 90, 0.1, 24, 24, 1, 0,
      50, 90, 0.1, -24, 24, 0, 0]"
proof -
  define st where "st = \<lparr>angle = pi / 2, distance = 40, size_star = 0.1, base_idx = 0\<rparr>"
  define F where "F = \<lparr>indices = [0, 1, 2, 2, 2, 3, 0], vertices = quad, stars = [st]\<rparr>"
  have f: "(fst (Starfield_init 1 g))
         \<lparr>stars := (stars (fst (Starfield_init 1 g)))
            [0 := (stars (fst (Starfield_init 1 g)) ! 0)
                    \<lparr>angle := pi / 2, distance := 40, size_star := 0.1\<rparr>]\<rparr> = F"
    by (simp add: Starfield_init_1 Star_init_eq F_def st_def)
  have gr: "grow 0 st = st" by (simp add: grow_eq st_def)
  have keep: "\<not> distance (grow 0 (stars F ! 0)) > 1.1 * max 50 50"
    by (simp add: F_def gr) (simp add: st_def)
  have F1: "F\<lparr>stars := (stars F)[0 := st]\<rparr> = F" by (simp add: F_def)
  have blk: "base_idx st + 28 \<le> length (vertices F)"
    by (simp add: st_def F_def length_quad)
  have "update_glsl 0 (50, 50) F g' = update_star 0 50 50 (1.1 * max 50 50) 0 (F, g')"
    by (simp add: update_glsl_def F_def)
  also have "\<dots> = (Star_update (grow 0 (stars F ! 0)) 50 50
      (F\<lparr>stars := (stars F)[0 := grow 0 (stars F ! 0)]\<rparr>), g')"
    by (rule update_star_write [OF keep])
  also have "\<dots> = (Star_update st 50 50 F, g')"
    using F1 gr by (simp add: F_def)
  finally have u: "fst (update_glsl 0 (50, 50) F g') = Star_update st 50 50 F" by simp
  have "vertices (Star_update st 50 50 F) =
     [50, 90, 0.1, -24, -24, 0, 1,
      50, 90, 0.1, 24, -24, 1, 1,
      50, 90, 0.1, 24, 24, 1, 0,
      50, 90, 0.1, -24, 24, 0, 0]"
    by (simp add: Star_update_vertices [OF blk] write3_def) (simp add: st_def F_def quad_def)
  then show ?thesis by (simp only: f u)
qed



end
